theory Spec2Isabelle
  imports Main "HOL-Library.AList" "HOL-Library.Word"
begin

section \<open>JavaScript values\<close>

text \<open>
  The server of \<^verbatim>\<open>src/index.js\<close> handles values that arrive as JSON (tool arguments,
  response bodies parsed by the HTTP client) and values it builds itself. They are modelled
  by one datatype. An object is the list of its own enumerable properties in the order
  \<^verbatim>\<open>Object.keys\<close> enumerates them; the keys of an object are distinct. \<open>JFun f\<close> is the
  built-in function named \<open>f\<close> that a property read reaches through the prototype chain; it
  never occurs inside JSON.

  A number is kept as its string form, the text the number-to-string conversion of
  ECMAScript gives for it: \<^verbatim>\<open>200\<close>, \<^verbatim>\<open>-7\<close>, \<^verbatim>\<open>0.5\<close>, \<^verbatim>\<open>1e+21\<close>, \<^verbatim>\<open>NaN\<close>. The
  server does not compute with the numbers of a body or of a result: it prints them and
  tests them for truth, and a number is falsy exactly when it prints as \<^verbatim>\<open>0\<close> (zero of
  either sign) or as \<^verbatim>\<open>NaN\<close>. The numbers the server computes itself, the difference of
  two timestamps and the length of an array, are integers that print in plain decimal.
\<close>

datatype jsval =
    JUndefined
  | JNull
  | JBool bool
  | JNum string
  | JStr string
  | JArr "jsval list"
  | JObj "(string \<times> jsval) list"
  | JFun string

type_synonym js_object = "(string \<times> jsval) list"

abbreviation LF :: char where
  "LF \<equiv> CHR 0x0A"

abbreviation DQ :: char where
  "DQ \<equiv> CHR 0x22"

text \<open>Truthiness (\<^verbatim>\<open>if (v)\<close>, \<^verbatim>\<open>!v\<close>) and the operator \<^verbatim>\<open>a || b\<close>.\<close>

fun js_truthy :: "jsval \<Rightarrow> bool" where
  "js_truthy JUndefined = False"
| "js_truthy JNull = False"
| "js_truthy (JBool b) = b"
| "js_truthy (JNum s) = (s \<noteq> ''0'' \<and> s \<noteq> ''NaN'')"
| "js_truthy (JStr s) = (s \<noteq> [])"
| "js_truthy (JArr xs) = True"
| "js_truthy (JObj kvs) = True"
| "js_truthy (JFun f) = True"

definition js_or :: "jsval \<Rightarrow> jsval \<Rightarrow> jsval" where
  "js_or a b = (if js_truthy a then a else b)"

text \<open>\<^verbatim>\<open>Array.isArray(v)\<close>, and the test \<^verbatim>\<open>typeof v === 'object' && v !== null\<close>,
  which arrays pass as well as plain objects.\<close>

fun isArray :: "jsval \<Rightarrow> bool" where
  "isArray (JArr xs) = True"
| "isArray v = False"

fun is_object :: "jsval \<Rightarrow> bool" where
  "is_object (JArr xs) = True"
| "is_object (JObj kvs) = True"
| "is_object v = False"

subsection \<open>Numbers and strings\<close>

text \<open>The plain decimal form of an integer the server computes.\<close>

function show_nat :: "nat \<Rightarrow> string" where
  "show_nat n =
     (if n < 10 then [''0123456789'' ! n]
      else show_nat (n div 10) @ [''0123456789'' ! (n mod 10)])"
  by pat_completeness auto
termination
  by (relation "measure id") auto

declare show_nat.simps [simp del]

definition show_int :: "int \<Rightarrow> string" where
  "show_int i = (if i < 0 then CHR ''-'' # show_nat (nat (- i)) else show_nat (nat i))"

text \<open>\<^verbatim>\<open>parts.join(sep)\<close> on a list of strings.\<close>

fun join :: "string \<Rightarrow> string list \<Rightarrow> string" where
  "join sep [] = []"
| "join sep [x] = x"
| "join sep (x # y # ys) = x @ sep @ join sep (y # ys)"

subsection \<open>Exceptions\<close>

text \<open>
  A thrown error object, with the three properties the server reads from it:
  \<^verbatim>\<open>message\<close>, \<^verbatim>\<open>code\<close> (set by the HTTP client and by Node on transport errors,
  otherwise undefined) and \<^verbatim>\<open>response\<close> (set by the HTTP client when a response was
  received). The response object carries \<^verbatim>\<open>config.metadata\<close>, where the handlers keep
  the two timestamps. A timestamp is a value of \<^verbatim>\<open>Date.now()\<close>, a number of milliseconds
  since 1970: a non-negative integer below \<open>2^53\<close>.
\<close>

type_synonym timestamp = "53 word"

record metadata =
  startTime :: "timestamp option"
  endTime :: "timestamp option"

record http_response =
  status :: jsval
  statusText :: jsval
  headers :: jsval
  data :: jsval
  config_metadata :: "metadata option"

datatype exn = Exn (message: string) (code: jsval) (response: "http_response option")

definition TypeError :: "string \<Rightarrow> exn" where
  "TypeError msg = Exn msg JUndefined None"

definition Error :: "string \<Rightarrow> exn" where
  "Error msg = Exn msg JUndefined None"

text \<open>Sequencing of computations that may throw: the first exception wins.\<close>

definition bind :: "exn + 'a \<Rightarrow> ('a \<Rightarrow> exn + 'b) \<Rightarrow> exn + 'b" where
  "bind m f = (case m of Inl e \<Rightarrow> Inl e | Inr x \<Rightarrow> f x)"

fun sequence :: "(exn + 'a) list \<Rightarrow> exn + 'a list" where
  "sequence [] = Inr []"
| "sequence (Inl e # ms) = Inl e"
| "sequence (Inr x # ms) = (case sequence ms of Inl e \<Rightarrow> Inl e | Inr xs \<Rightarrow> Inr (x # xs))"

subsection \<open>Conversion to string\<close>

text \<open>
  \<^verbatim>\<open>String(v)\<close> and the conversion inside a template literal. An array joins the
  strings of its elements with commas, null and undefined elements giving the empty
  string. A plain object without an own property \<^verbatim>\<open>toString\<close> inherits
  \<^verbatim>\<open>Object.prototype.toString\<close>. An own property \<^verbatim>\<open>toString\<close> of parsed JSON is never
  callable, and \<^verbatim>\<open>valueOf\<close> (own: not callable; inherited: returns the object) gives
  no primitive either, so the conversion throws a TypeError.
\<close>

fun js_String :: "jsval \<Rightarrow> exn + string" where
  "js_String JUndefined = Inr ''undefined''"
| "js_String JNull = Inr ''null''"
| "js_String (JBool b) = Inr (if b then ''true'' else ''false'')"
| "js_String (JNum s) = Inr s"
| "js_String (JStr s) = Inr s"
| "js_String (JArr xs) =
     map_sum id (join '','')
       (sequence (map (\<lambda>x. if x = JUndefined \<or> x = JNull then Inr [] else js_String x) xs))"
| "js_String (JObj kvs) =
     (if ''toString'' \<in> set (map fst kvs)
      then Inl (TypeError ''Cannot convert object to primitive value'')
      else Inr ''[object Object]'')"
| "js_String (JFun f) = Inr (''function '' @ f @ ''() { [native code] }'')"

subsection \<open>Property reads\<close>

text \<open>
  The string-keyed properties every plain object inherits from \<^verbatim>\<open>Object.prototype\<close>
  and every array from \<^verbatim>\<open>Array.prototype\<close> (ECMAScript 2023). All of them are
  built-in functions, except the accessor \<^verbatim>\<open>__proto__\<close>, which \<open>js_get\<close> treats apart.
\<close>

definition Object_prototype :: js_object where
  "Object_prototype =
     (''constructor'', JFun ''Object'') #
     map (\<lambda>n. (n, JFun n))
       [''__defineGetter__'', ''__defineSetter__'', ''hasOwnProperty'', ''__lookupGetter__'',
        ''__lookupSetter__'', ''isPrototypeOf'', ''propertyIsEnumerable'', ''toString'',
        ''valueOf'', ''toLocaleString'']"

definition Array_prototype :: js_object where
  "Array_prototype =
     (''constructor'', JFun ''Array'') #
     map (\<lambda>n. (n, JFun n))
       [''at'', ''concat'', ''copyWithin'', ''fill'', ''find'', ''findIndex'', ''findLast'',
        ''findLastIndex'', ''lastIndexOf'', ''pop'', ''push'', ''reverse'', ''shift'',
        ''unshift'', ''slice'', ''sort'', ''splice'', ''includes'', ''indexOf'', ''join'',
        ''keys'', ''entries'', ''values'', ''forEach'', ''filter'', ''flat'', ''flatMap'',
        ''map'', ''every'', ''some'', ''reduce'', ''reduceRight'', ''toLocaleString'',
        ''toString'', ''toReversed'', ''toSorted'', ''toSpliced'', ''with'']"

text \<open>
  \<^verbatim>\<open>Object.keys(v)\<close> for an object or an array (the only values the server passes). An
  array has fewer than \<open>2^32\<close> elements; its indices and its length print in plain decimal.
\<close>

fun Object_keys :: "jsval \<Rightarrow> string list" where
  "Object_keys (JObj kvs) = map fst kvs"
| "Object_keys (JArr xs) = map show_nat [0..<length xs]"
| "Object_keys v = []"

text \<open>
  \<^verbatim>\<open>v[k]\<close> for an object or an array \<open>v\<close>: the own property, else the property found
  on the prototype chain, else undefined. Reading \<^verbatim>\<open>__proto__\<close> gives the prototype
  itself: \<^verbatim>\<open>Object.prototype\<close> prints as an object without properties does, and
  \<^verbatim>\<open>Array.prototype\<close> is an empty array.
\<close>

fun js_get :: "jsval \<Rightarrow> string \<Rightarrow> jsval" where
  "js_get (JObj kvs) k =
     (case map_of kvs k of
        Some v \<Rightarrow> v
      | None \<Rightarrow>
          if k = ''__proto__'' then JObj []
          else (case map_of Object_prototype k of Some f \<Rightarrow> f | None \<Rightarrow> JUndefined))"
| "js_get (JArr xs) k =
     (case map_of (zip (map show_nat [0..<length xs]) xs) k of
        Some v \<Rightarrow> v
      | None \<Rightarrow>
          if k = ''length'' then JNum (show_nat (length xs))
          else if k = ''__proto__'' then JArr []
          else (case map_of Array_prototype k of
                  Some f \<Rightarrow> f
                | None \<Rightarrow> (case map_of Object_prototype k of Some f \<Rightarrow> f | None \<Rightarrow> JUndefined)))"
| "js_get v k = JUndefined"

text \<open>\<^verbatim>\<open>result.k\<close> on a result record.\<close>

definition field :: "js_object \<Rightarrow> string \<Rightarrow> jsval" where
  "field result k = js_get (JObj result) k"

section \<open>The response normalizer\<close>

text \<open>
  \<^verbatim>\<open>a - b\<close> on two timestamps, each a value of \<^verbatim>\<open>Date.now()\<close> or undefined: the
  difference of two timestamps is an integer between \<open>-2^53\<close> and \<open>2^53\<close>, computed exactly and
  printed in plain decimal; with an undefined operand the result is \<^verbatim>\<open>NaN\<close>.
  \<^verbatim>\<open>metadata?.endTime\<close> is undefined when \<^verbatim>\<open>metadata\<close> is.
\<close>

definition js_minus :: "timestamp option \<Rightarrow> timestamp option \<Rightarrow> jsval" where
  "js_minus a b =
     (case (a, b) of
        (Some x, Some y) \<Rightarrow> JNum (show_int (uint x - uint y))
      | _ \<Rightarrow> JNum ''NaN'')"

definition opt_chain ::
    "metadata option \<Rightarrow> (metadata \<Rightarrow> timestamp option) \<Rightarrow> timestamp option" where
  "opt_chain m sel = (case m of None \<Rightarrow> None | Some md \<Rightarrow> sel md)"

definition formatApiResponse :: "http_response \<Rightarrow> jsval \<Rightarrow> jsval \<Rightarrow> jsval \<Rightarrow> js_object" where
  "formatApiResponse resp method url requestData =
     [(''success'', JBool True),
      (''method'', method),
      (''url'', url),
      (''status'', status resp),
      (''statusText'', statusText resp),
      (''headers'', headers resp),
      (''data'', data resp),
      (''responseTime'',
         js_or (js_minus (opt_chain (config_metadata resp) endTime)
                         (opt_chain (config_metadata resp) startTime))
               (JStr ''N/A''))]
     @ (if js_truthy requestData then [(''requestData'', requestData)] else [])"

definition formatErrorResponse :: "exn \<Rightarrow> jsval \<Rightarrow> jsval \<Rightarrow> jsval \<Rightarrow> js_object" where
  "formatErrorResponse error method url requestData =
     [(''success'', JBool False),
      (''method'', method),
      (''url'', url),
      (''error'', JStr (message error)),
      (''code'', js_or (code error) (JStr ''UNKNOWN_ERROR''))]
     @ (case response error of
          Some r \<Rightarrow>
            [(''status'', status r),
             (''statusText'', statusText r),
             (''headers'', headers r),
             (''data'', data r)]
        | None \<Rightarrow> [])
     @ (if js_truthy requestData then [(''requestData'', requestData)] else [])"

section \<open>The CSV projector\<close>

subsection \<open>Cell escaping\<close>

text \<open>\<^verbatim>\<open>stringValue.replace(/"/g, '""')\<close>\<close>

fun replace_quotes :: "string \<Rightarrow> string" where
  "replace_quotes [] = []"
| "replace_quotes (c # cs) =
     (if c = DQ then DQ # DQ # replace_quotes cs else c # replace_quotes cs)"

text \<open>
  \<^verbatim>\<open>escapeCsvValue\<close>. The source ends with a test whether the string is numeric; both
  of its branches return \<^verbatim>\<open>stringValue\<close>, and the test works on a string and cannot
  throw, so the model returns \<^verbatim>\<open>stringValue\<close> there.
\<close>

definition escapeCsvValue :: "jsval \<Rightarrow> exn + string" where
  "escapeCsvValue v =
     (if v = JUndefined \<or> v = JNull then Inr []
      else bind (js_String v) (\<lambda>stringValue.
        if CHR '','' \<in> set stringValue \<or> LF \<in> set stringValue \<or> DQ \<in> set stringValue
        then Inr ([DQ] @ replace_quotes stringValue @ [DQ])
        else Inr stringValue))"

subsection \<open>Tables\<close>

text \<open>
  The \<^verbatim>\<open>Set\<close> of header keys: \<^verbatim>\<open>headers.add(key)\<close> appends a key that is not yet
  a member; \<^verbatim>\<open>Array.from(headers)\<close> lists the members in insertion order.
\<close>

fun add_keys :: "string list \<Rightarrow> string list \<Rightarrow> string list" where
  "add_keys hs [] = hs"
| "add_keys hs (k # ks) = add_keys (if k \<in> set hs then hs else hs @ [k]) ks"

definition header_set :: "jsval list \<Rightarrow> string list" where
  "header_set xs =
     foldl (\<lambda>hs obj. if is_object obj then add_keys hs (Object_keys obj) else hs) [] xs"

text \<open>One data row: \<^verbatim>\<open>headerArray.map(header => escapeCsvValue(obj[header])).join(',')\<close>.\<close>

definition csv_row :: "string list \<Rightarrow> jsval \<Rightarrow> exn + string" where
  "csv_row headerArray obj =
     map_sum id (join '','')
       (sequence (map (\<lambda>header. escapeCsvValue (js_get obj header)) headerArray))"

definition csv_header :: "string list \<Rightarrow> exn + string" where
  "csv_header headerArray =
     map_sum id (join '','') (sequence (map (\<lambda>h. escapeCsvValue (JStr h)) headerArray))"

text \<open>
  \<^verbatim>\<open>convertArrayOfObjectsToCsv\<close>: \<open>csvRows\<close> is the array of that name, the header
  line followed by one line for each element that passes the object test.
\<close>

definition csvRows :: "string list \<Rightarrow> jsval list \<Rightarrow> exn + string list" where
  "csvRows headerArray xs =
     bind (csv_header headerArray) (\<lambda>h.
     bind (sequence (map (csv_row headerArray) (filter is_object xs))) (\<lambda>rows.
     Inr (h # rows)))"

definition convertArrayOfObjectsToCsv :: "jsval \<Rightarrow> exn + string" where
  "convertArrayOfObjectsToCsv d =
     (case d of
        JArr xs \<Rightarrow>
          if xs = [] then Inr []
          else let headerArray = header_set xs in
            if headerArray = [] then Inr []
            else map_sum id (join [LF]) (csvRows headerArray xs)
      | _ \<Rightarrow> Inr [])"

definition convertObjectToCsv :: "jsval \<Rightarrow> exn + string" where
  "convertObjectToCsv d =
     (if \<not> is_object d then Inr []
      else let hdrs = Object_keys d in
        if hdrs = [] then Inr []
        else bind (csv_header hdrs) (\<lambda>h.
             bind (csv_row hdrs d) (\<lambda>row.
             Inr (join [LF] [h, row]))))"

text \<open>
  \<^verbatim>\<open>generateMetadataRow\<close>: each template literal converts its value to a string, in
  the order of the source.
\<close>

definition generateMetadataRow :: "js_object \<Rightarrow> exn + string" where
  "generateMetadataRow result =
     bind (js_String (js_or (field result ''status'') (JStr ''N/A''))) (\<lambda>s.
     bind (js_String (js_or (field result ''method'') (JStr ''N/A''))) (\<lambda>m.
     bind (js_String (js_or (field result ''url'') (JStr ''N/A''))) (\<lambda>u.
     bind (js_String (js_or (field result ''responseTime'') (JStr ''N/A''))) (\<lambda>t.
     bind (if js_truthy (field result ''error'')
           then map_sum id (\<lambda>e. [''error:'' @ e]) (js_String (field result ''error''))
           else Inr []) (\<lambda>err.
     Inr (''# '' @ join ''|''
            ([''status:'' @ s, ''method:'' @ m, ''url:'' @ u, ''time:'' @ t @ ''ms''] @ err)))))))"

text \<open>
  The block of \<^verbatim>\<open>toCsv\<close> that computes \<^verbatim>\<open>csvContent\<close> from \<^verbatim>\<open>result.data\<close>.
\<close>

definition csvContent :: "jsval \<Rightarrow> exn + string" where
  "csvContent d =
     (if js_truthy d then
        if isArray d then convertArrayOfObjectsToCsv d
        else if is_object d then convertObjectToCsv d
        else map_sum id (\<lambda>v. ''value'' @ [LF] @ v) (escapeCsvValue d)
      else Inr [])"

text \<open>The body of the \<^verbatim>\<open>try\<close> block of \<^verbatim>\<open>toCsv\<close>.\<close>

definition toCsv_try :: "js_object \<Rightarrow> exn + string" where
  "toCsv_try result =
     (if js_truthy (field result ''error'') then
        bind (generateMetadataRow result) (\<lambda>metadataRow.
        bind (escapeCsvValue (field result ''error'')) (\<lambda>e1.
        bind (escapeCsvValue (js_or (field result ''code'') (JStr ''UNKNOWN_ERROR''))) (\<lambda>c.
        bind (escapeCsvValue (field result ''error'')) (\<lambda>e2.
        Inr (join [LF] [metadataRow, ''error,code,message'', e1 @ '','' @ c @ '','' @ e2])))))
      else
        bind (generateMetadataRow result) (\<lambda>metadataRow.
        bind (csvContent (field result ''data'')) (\<lambda>content.
        bind (if content = [] then
                bind (escapeCsvValue (field result ''status'')) (\<lambda>s.
                bind (escapeCsvValue (field result ''method'')) (\<lambda>m.
                bind (escapeCsvValue (field result ''url'')) (\<lambda>u.
                Inr (''status,method,url'' @ [LF] @ s @ '','' @ m @ '','' @ u))))
              else Inr content) (\<lambda>content'.
        Inr (metadataRow @ [LF] @ content')))))"

text \<open>
  \<^verbatim>\<open>toCsv\<close>: the \<^verbatim>\<open>try\<close> block, and the \<^verbatim>\<open>catch\<close> block, which builds the
  fallback table from a new metadata row and the message of the caught exception.
\<close>

definition toCsv :: "js_object \<Rightarrow> exn + string" where
  "toCsv result =
     (case toCsv_try result of
        Inr csv \<Rightarrow> Inr csv
      | Inl error \<Rightarrow>
          bind (generateMetadataRow result) (\<lambda>metadataRow.
          bind (escapeCsvValue (JStr (message error))) (\<lambda>m.
          Inr (join [LF] [metadataRow, ''error,code,message'',
                 ''CSV Conversion Error,CONVERSION_ERROR,'' @ m]))))"

section \<open>The tool dispatcher\<close>

text \<open>
  The HTTP client is outside the repository: it is a parameter, a function from the
  request it is given to a response or a thrown error. A request records which client
  function was called and with what. \<^verbatim>\<open>Date.now()\<close> is a parameter as well: \<open>t0\<close>
  before the call and \<open>t1\<close> after it.
\<close>

record request_config =
  req_method :: string
  req_url :: jsval
  req_data :: jsval
  req_headers :: jsval
  req_params :: jsval
  req_metadata :: metadata

type_synonym http_client = "request_config \<Rightarrow> exn + http_response"

text \<open>
  The text of a reply is the CSV document, or \<^verbatim>\<open>JSON.stringify\<close> of an object, which
  is kept as the object. A reply without the flag \<^verbatim>\<open>isError\<close> has it false.
\<close>

datatype payload = CsvText string | JsonText js_object

record tool_result =
  content :: payload
  isError :: bool

text \<open>
  The entries appended to \<^verbatim>\<open>logs/api-tester-errors.log\<close>: the entry of
  \<^verbatim>\<open>handleErrorWithLogging\<close> with its formatted error response, and the entry of type
  \<^verbatim>\<open>handler_error\<close> with the tool name and the message.
\<close>

datatype log_entry = ApiErrorLog js_object | HandlerErrorLog string string

record outcome =
  reply :: tool_result
  requests :: "request_config list"
  logged :: "log_entry list"

fun js_typeof :: "jsval \<Rightarrow> string" where
  "js_typeof JUndefined = ''undefined''"
| "js_typeof JNull = ''object''"
| "js_typeof (JBool b) = ''boolean''"
| "js_typeof (JNum s) = ''number''"
| "js_typeof (JStr s) = ''string''"
| "js_typeof (JArr xs) = ''object''"
| "js_typeof (JObj kvs) = ''object''"
| "js_typeof (JFun f) = ''function''"

definition validateArgs :: "jsval \<Rightarrow> exn + jsval" where
  "validateArgs args =
     (let argsToValidate = js_or args (JObj []) in
      if js_typeof argsToValidate \<noteq> ''object'' \<or> isArray argsToValidate
      then Inl (Error (''Invalid arguments: expected object, got '' @ js_typeof argsToValidate))
      else Inr argsToValidate)"

definition buildContent :: "js_object \<Rightarrow> jsval \<Rightarrow> exn + tool_result" where
  "buildContent result fmt =
     (if fmt = JStr ''csv''
      then map_sum id (\<lambda>t. \<lparr>content = CsvText t, isError = False\<rparr>) (toCsv result)
      else Inr \<lparr>content = JsonText result, isError = False\<rparr>)"

definition handleErrorWithLogging ::
    "exn \<Rightarrow> jsval \<Rightarrow> jsval \<Rightarrow> jsval \<Rightarrow> jsval \<Rightarrow> (exn + tool_result) \<times> log_entry list" where
  "handleErrorWithLogging error method url requestData fmt =
     (let errorResponse = formatErrorResponse error method url requestData
      in (buildContent errorResponse fmt, [ApiErrorLog errorResponse]))"

text \<open>
  The inner \<^verbatim>\<open>try\<close> of a tool case: the call of the client, the end timestamp written
  into \<^verbatim>\<open>response.config.metadata\<close>, the normalizer and the serializer; whatever is
  thrown there goes to \<^verbatim>\<open>handleErrorWithLogging\<close>.
\<close>

definition set_endTime :: "timestamp \<Rightarrow> http_response \<Rightarrow> exn + http_response" where
  "set_endTime t1 resp =
     (case config_metadata resp of
        None \<Rightarrow> Inl (TypeError ''Cannot set properties of undefined (setting 'endTime')'')
      | Some md \<Rightarrow> Inr (resp\<lparr>config_metadata := Some (md\<lparr>endTime := Some t1\<rparr>)\<rparr>))"

definition attempt ::
    "http_client \<Rightarrow> timestamp \<Rightarrow> request_config \<Rightarrow> jsval \<Rightarrow> jsval \<Rightarrow> jsval \<Rightarrow> jsval
      \<Rightarrow> (exn + tool_result) \<times> request_config list \<times> log_entry list" where
  "attempt client t1 cfg method url requestData fmt =
     (case bind (client cfg) (\<lambda>resp.
           bind (set_endTime t1 resp) (\<lambda>resp'.
           buildContent (formatApiResponse resp' method url requestData) fmt)) of
        Inr r \<Rightarrow> (Inr r, [cfg], [])
      | Inl error \<Rightarrow>
          (case handleErrorWithLogging error method url requestData fmt of
             (r, l) \<Rightarrow> (r, [cfg], l)))"

text \<open>
  \<^verbatim>\<open>method.toLowerCase()\<close> and \<^verbatim>\<open>method.toUpperCase()\<close>, on ASCII letters. The
  handler calls \<^verbatim>\<open>toUpperCase\<close> only after \<^verbatim>\<open>toLowerCase\<close> has returned, that is
  on a string.
\<close>

definition lower_char :: "char \<Rightarrow> char" where
  "lower_char c =
     (case map_of (zip ''ABCDEFGHIJKLMNOPQRSTUVWXYZ'' ''abcdefghijklmnopqrstuvwxyz'') c of
        Some l \<Rightarrow> l
      | None \<Rightarrow> c)"

definition upper_char :: "char \<Rightarrow> char" where
  "upper_char c =
     (case map_of (zip ''abcdefghijklmnopqrstuvwxyz'' ''ABCDEFGHIJKLMNOPQRSTUVWXYZ'') c of
        Some u \<Rightarrow> u
      | None \<Rightarrow> c)"

text \<open>A call of the method on a value that is not a string throws.\<close>

definition toLowerCase :: "jsval \<Rightarrow> exn + string" where
  "toLowerCase v =
     (case v of
        JStr s \<Rightarrow> Inr (map lower_char s)
      | JUndefined \<Rightarrow> Inl (TypeError ''Cannot read properties of undefined (reading 'toLowerCase')'')
      | JNull \<Rightarrow> Inl (TypeError ''Cannot read properties of null (reading 'toLowerCase')'')
      | _ \<Rightarrow> Inl (TypeError ''method.toLowerCase is not a function''))"

definition toUpperCase :: "jsval \<Rightarrow> string" where
  "toUpperCase v = (case v of JStr s \<Rightarrow> map upper_char s | _ \<Rightarrow> [])"

text \<open>
  The \<^verbatim>\<open>switch\<close> of the request handler. Each case validates the arguments, reads
  them by destructuring, builds the request and runs the inner \<^verbatim>\<open>try\<close>. The cases
  \<^verbatim>\<open>api_get\<close> and \<^verbatim>\<open>api_delete\<close> differ in the client function and the method name
  only, and so do \<^verbatim>\<open>api_post\<close> and \<^verbatim>\<open>api_put\<close>; each pair is one branch here. The
  result is what the case returns or throws, the requests given to the client, and the log.
\<close>

definition tool_case ::
    "http_client \<Rightarrow> timestamp \<Rightarrow> timestamp \<Rightarrow> string \<Rightarrow> jsval
      \<Rightarrow> (exn + tool_result) \<times> request_config list \<times> log_entry list" where
  "tool_case client t0 t1 name args =
     (if name = ''api_get'' \<or> name = ''api_delete'' then
        (case validateArgs args of
           Inl e \<Rightarrow> (Inl e, [], [])
         | Inr validatedArgs \<Rightarrow>
             let url = js_get validatedArgs ''url'';
                 fmt = js_or (js_get validatedArgs ''format'') (JStr ''json'')
             in attempt client t1
                  \<lparr>req_method = (if name = ''api_get'' then ''get'' else ''delete''),
                   req_url = url,
                   req_data = JUndefined,
                   req_headers = js_get validatedArgs ''headers'',
                   req_params = js_get validatedArgs ''params'',
                   req_metadata = \<lparr>startTime = Some t0, endTime = None\<rparr>\<rparr>
                  (JStr (if name = ''api_get'' then ''GET'' else ''DELETE'')) url JNull fmt)
      else if name = ''api_post'' \<or> name = ''api_put'' then
        (case validateArgs args of
           Inl e \<Rightarrow> (Inl e, [], [])
         | Inr validatedArgs \<Rightarrow>
             let url = js_get validatedArgs ''url'';
                 d = js_get validatedArgs ''data'';
                 fmt = js_or (js_get validatedArgs ''format'') (JStr ''json'')
             in attempt client t1
                  \<lparr>req_method = (if name = ''api_post'' then ''post'' else ''put''),
                   req_url = url,
                   req_data = d,
                   req_headers = js_get validatedArgs ''headers'',
                   req_params = js_get validatedArgs ''params'',
                   req_metadata = \<lparr>startTime = Some t0, endTime = None\<rparr>\<rparr>
                  (JStr (if name = ''api_post'' then ''POST'' else ''PUT'')) url d fmt)
      else if name = ''api_request'' then
        (case validateArgs args of
           Inl e \<Rightarrow> (Inl e, [], [])
         | Inr validatedArgs \<Rightarrow>
             let method = js_get validatedArgs ''method'';
                 url = js_get validatedArgs ''url'';
                 d = js_get validatedArgs ''data'';
                 fmt = js_or (js_get validatedArgs ''format'') (JStr ''json'')
             in (case toLowerCase method of
                   Inl e \<Rightarrow> (Inl e, [], [])
                 | Inr lower \<Rightarrow>
                     attempt client t1
                       \<lparr>req_method = lower,
                        req_url = url,
                        req_data =
                          (if js_truthy d \<and> lower \<in> set [''post'', ''put'', ''patch'']
                           then d else JUndefined),
                        req_headers = js_get validatedArgs ''headers'',
                        req_params = js_get validatedArgs ''params'',
                        req_metadata = \<lparr>startTime = Some t0, endTime = None\<rparr>\<rparr>
                       (JStr (toUpperCase method)) url d fmt))
      else (Inl (Error (''Unknown tool: '' @ name)), [], []))"

text \<open>
  The handler of \<^verbatim>\<open>CallToolRequestSchema\<close>: the \<^verbatim>\<open>switch\<close> inside the outer
  \<^verbatim>\<open>try\<close>; the outer \<^verbatim>\<open>catch\<close> logs a handler error and returns the reply that is
  flagged as an error.
\<close>

definition handler ::
    "http_client \<Rightarrow> timestamp \<Rightarrow> timestamp \<Rightarrow> string \<Rightarrow> jsval \<Rightarrow> outcome" where
  "handler client t0 t1 name args =
     (case tool_case client t0 t1 name args of
        (Inr r, reqs, l) \<Rightarrow> \<lparr>reply = r, requests = reqs, logged = l\<rparr>
      | (Inl error, reqs, l) \<Rightarrow>
          \<lparr>reply =
             \<lparr>content = JsonText [(''success'', JBool False),
                                   (''error'', JStr (message error)),
                                   (''tool'', JStr name)],
              isError = True\<rparr>,
           requests = reqs,
           logged = l @ [HandlerErrorLog name (message error)]\<rparr>)"

section \<open>Shapes of a canonical result\<close>

text \<open>A result has a field when the key is among its own properties.\<close>

definition has_field :: "js_object \<Rightarrow> string \<Rightarrow> bool" where
  "has_field r k = (k \<in> set (map fst r))"

definition success_shaped :: "js_object \<Rightarrow> bool" where
  "success_shaped r =
     (has_field r ''status'' \<and> has_field r ''statusText'' \<and> has_field r ''headers'' \<and>
      has_field r ''data'' \<and> \<not> has_field r ''error'' \<and> \<not> has_field r ''code'')"

definition failure_shaped :: "js_object \<Rightarrow> bool" where
  "failure_shaped r = (has_field r ''error'' \<and> has_field r ''code'')"

text \<open>
  In a canonical result the fields \<open>status\<close>, \<open>method\<close>, \<open>url\<close>, \<open>responseTime\<close>, \<open>error\<close>
  and \<open>code\<close> are scalars (a number, a string, a boolean, or absent), whatever the shape
  of \<open>data\<close>.
\<close>

fun scalar :: "jsval \<Rightarrow> bool" where
  "scalar (JArr xs) = False"
| "scalar (JObj kvs) = False"
| "scalar (JFun f) = False"
| "scalar v = True"

definition scalar_fields :: "js_object \<Rightarrow> bool" where
  "scalar_fields r =
     (scalar (field r ''status'') \<and> scalar (field r ''method'') \<and> scalar (field r ''url'') \<and>
      scalar (field r ''responseTime'') \<and> scalar (field r ''error'') \<and> scalar (field r ''code''))"

text \<open>
  The union of the keys of all elements, each key at the place where it is first seen.
\<close>

definition key_union :: "jsval list \<Rightarrow> string list" where
  "key_union xs = rev (remdups (rev (concat (map Object_keys xs))))"

text \<open>
  A key that an element neither has as an own property nor inherits: reading it gives
  undefined.
\<close>

definition absent_key :: "jsval \<Rightarrow> string \<Rightarrow> bool" where
  "absent_key x k = (k \<notin> set (Object_keys x) \<and> js_get x k = JUndefined)"

text \<open>Every cell of the table of an array has a string form.\<close>

definition cells_printable :: "jsval list \<Rightarrow> bool" where
  "cells_printable xs =
     list_all (\<lambda>x. list_all (\<lambda>h. isl (escapeCsvValue (js_get x h)) = False) (header_set xs))
       (filter is_object xs)"

section \<open>Sample inputs\<close>

text \<open>
  Concrete results and calls at which the theorems below are instantiated: the result of a
  request answered with status 404 and a JSON body, the result of a request answered with
  status 200 and a given body, three response bodies, and a client that reaches no server.
\<close>

definition r404 :: js_object where
  "r404 = formatErrorResponse
            (Exn ''Request failed with status code 404'' (JStr ''ERR_BAD_REQUEST'')
               (Some \<lparr>status = JNum ''404'', statusText = JStr ''Not Found'', headers = JObj [],
                      data = JObj [(''a'', JNum ''1'')], config_metadata = None\<rparr>))
            (JStr ''GET'') (JStr ''http://h/x'') JNull"

definition ok_response :: "jsval \<Rightarrow> http_response" where
  "ok_response d =
     \<lparr>status = JNum ''200'', statusText = JStr ''OK'', headers = JObj [], data = d,
      config_metadata = Some \<lparr>startTime = Some 1000, endTime = Some 1042\<rparr>\<rparr>"

definition ok_result :: "jsval \<Rightarrow> js_object" where
  "ok_result d = formatApiResponse (ok_response d) (JStr ''GET'') (JStr ''http://h/x'') JNull"

definition xy_rows :: "jsval list" where
  "xy_rows = [JObj [(''x'', JNum ''1'')], JObj [(''y'', JNum ''2'')]]"

definition mixed_rows :: "jsval list" where
  "mixed_rows = [JObj [(''a'', JNum ''1'')], JNull, JNum ''2'', JStr ''s'']"

definition unprintable_rows :: "jsval list" where
  "unprintable_rows = [JObj [(''a'', JObj [(''toString'', JNum ''1'')])], JNull]"

definition no_network :: http_client where
  "no_network cfg = Inl (Exn ''Network Error'' (JStr ''ERR_NETWORK'') None)"

section \<open>Properties\<close>

subsection \<open>Decimal printing\<close>

lemma show_nat_nonempty: "show_nat n \<noteq> []"
  by (subst show_nat.simps) simp

lemma digit_zero: "n < 10 \<Longrightarrow> (''0123456789'' ! n = CHR ''0'') = (n = 0)"
  using nth_eq_iff_index_eq [of "''0123456789''" n 0] by simp

lemma show_nat_zero: "show_nat n = ''0'' \<longleftrightarrow> n = 0"
proof (cases "n < 10")
  case True
  then show ?thesis
    by (subst show_nat.simps) (simp add: digit_zero)
next
  case False
  have "length (show_nat n) = Suc (length (show_nat (n div 10)))"
    using False by (subst show_nat.simps) simp
  with show_nat_nonempty [of "n div 10"] have "length (show_nat n) \<noteq> 1"
    by simp
  with False show ?thesis by auto
qed

lemma show_nat_digits: "set (show_nat n) \<subseteq> set ''0123456789''"
proof (induction n rule: show_nat.induct)
  case (1 n)
  have d: "\<And>k. k < 10 \<Longrightarrow> ''0123456789'' ! k \<in> set ''0123456789''"
    by (rule nth_mem) simp
  show ?case
  proof (cases "n < 10")
    case True
    then show ?thesis
      using d [of n] by (subst show_nat.simps) simp
  next
    case False
    then show ?thesis
      using "1.IH" d [of "n mod 10"] by (subst show_nat.simps) simp
  qed
qed

lemma show_int_zero: "show_int d = ''0'' \<longleftrightarrow> d = 0"
  by (auto simp add: show_int_def show_nat_zero)

lemma show_int_not_NaN: "show_int d \<noteq> ''NaN''"
proof
  assume a: "show_int d = ''NaN''"
  show False
  proof (cases "d < 0")
    case True
    with a show False by (simp add: show_int_def)
  next
    case False
    with a have "show_nat (nat d) = ''NaN''" by (simp add: show_int_def)
    with show_nat_digits [of "nat d"] show False by simp
  qed
qed

text \<open>The difference of two timestamps is falsy exactly when they are equal.\<close>

lemma js_minus_truthy:
  "js_truthy (js_minus (Some e) (Some s)) = (e \<noteq> s)"
  by (simp add: js_minus_def show_int_zero show_int_not_NaN word_uint_eq_iff)

subsection \<open>The normalizer\<close>

lemma bind_Inr [simp]: "bind (Inr x) f = f x"
  by (simp add: bind_def)

lemma bind_Inl [simp]: "bind (Inl e) f = Inl e"
  by (simp add: bind_def)

lemma keys_formatApiResponse:
  "map fst (formatApiResponse resp m u rd) =
     [''success'', ''method'', ''url'', ''status'', ''statusText'', ''headers'', ''data'',
      ''responseTime''] @ (if js_truthy rd then [''requestData''] else [])"
  by (simp add: formatApiResponse_def)

lemma keys_formatErrorResponse:
  "map fst (formatErrorResponse e m u rd) =
     [''success'', ''method'', ''url'', ''error'', ''code''] @
     (if response e = None then [] else [''status'', ''statusText'', ''headers'', ''data'']) @
     (if js_truthy rd then [''requestData''] else [])"
  by (simp add: formatErrorResponse_def split: option.splits)

text \<open>
  Claim C4. Every result of the normalizer is success-shaped or failure-shaped and never
  both: \<^verbatim>\<open>formatApiResponse\<close> gives a record with \<open>status\<close>, \<open>statusText\<close>, \<open>headers\<close>
  and \<open>data\<close> and without \<open>error\<close> and \<open>code\<close>; \<^verbatim>\<open>formatErrorResponse\<close> gives a
  record with \<open>error\<close> and \<open>code\<close>, which has \<open>status\<close>, \<open>statusText\<close>, \<open>headers\<close> and
  \<open>data\<close> exactly when the failure carried a response. Both have \<open>method\<close> and \<open>url\<close>.
\<close>

theorem normalizer_shapes:
  "(success_shaped (formatApiResponse resp m u rd) \<and>
    \<not> failure_shaped (formatApiResponse resp m u rd) \<and>
    has_field (formatApiResponse resp m u rd) ''method'' \<and>
    has_field (formatApiResponse resp m u rd) ''url'') \<and>
   (failure_shaped (formatErrorResponse e m u rd) \<and>
    \<not> success_shaped (formatErrorResponse e m u rd) \<and>
    has_field (formatErrorResponse e m u rd) ''method'' \<and>
    has_field (formatErrorResponse e m u rd) ''url'' \<and>
    has_field (formatErrorResponse e m u rd) ''status'' = (response e \<noteq> None) \<and>
    has_field (formatErrorResponse e m u rd) ''statusText'' = (response e \<noteq> None) \<and>
    has_field (formatErrorResponse e m u rd) ''headers'' = (response e \<noteq> None) \<and>
    has_field (formatErrorResponse e m u rd) ''data'' = (response e \<noteq> None))"
  by (simp add: success_shaped_def failure_shaped_def has_field_def keys_formatApiResponse
      keys_formatErrorResponse)

lemma normalizer_result_shapes:
  "success_shaped (formatApiResponse resp m u rd)"
  "failure_shaped (formatErrorResponse e m u rd)"
  by (simp_all add: success_shaped_def failure_shaped_def has_field_def keys_formatApiResponse
      keys_formatErrorResponse)

lemma not_inherited:
  "map_of Object_prototype ''success'' = None"
  "map_of Object_prototype ''method'' = None"
  "map_of Object_prototype ''url'' = None"
  "map_of Object_prototype ''status'' = None"
  "map_of Object_prototype ''statusText'' = None"
  "map_of Object_prototype ''headers'' = None"
  "map_of Object_prototype ''data'' = None"
  "map_of Object_prototype ''responseTime'' = None"
  "map_of Object_prototype ''requestData'' = None"
  "map_of Object_prototype ''error'' = None"
  "map_of Object_prototype ''code'' = None"
  "map_of Object_prototype ''format'' = None"
  "map_of Object_prototype ''params'' = None"
  by (simp_all add: Object_prototype_def)

lemma field_own:
  "k \<noteq> ''__proto__'' \<Longrightarrow> map_of Object_prototype k = None \<Longrightarrow>
   field r k = (case map_of r k of Some v \<Rightarrow> v | None \<Rightarrow> JUndefined)"
  by (simp add: field_def split: option.splits)

lemma responseTime_field:
  "field (formatApiResponse resp m u rd) ''responseTime'' =
     js_or (js_minus (opt_chain (config_metadata resp) endTime)
                     (opt_chain (config_metadata resp) startTime)) (JStr ''N/A'')"
  by (simp add: field_own not_inherited formatApiResponse_def)

lemma formatApiResponse_fields:
  "field (formatApiResponse resp m u rd) ''success'' = JBool True"
  "field (formatApiResponse resp m u rd) ''status'' = status resp"
  "field (formatApiResponse resp m u rd) ''statusText'' = statusText resp"
  "field (formatApiResponse resp m u rd) ''headers'' = headers resp"
  "field (formatApiResponse resp m u rd) ''data'' = data resp"
  "field (formatApiResponse resp m u rd) ''method'' = m"
  "field (formatApiResponse resp m u rd) ''url'' = u"
  "field (formatApiResponse resp m u rd) ''error'' = JUndefined"
  "field (formatApiResponse resp m u rd) ''code'' = JUndefined"
  by (simp_all add: field_own not_inherited formatApiResponse_def)

lemma formatErrorResponse_fields:
  "field (formatErrorResponse e m u rd) ''success'' = JBool False"
  "field (formatErrorResponse e m u rd) ''error'' = JStr (message e)"
  "field (formatErrorResponse e m u rd) ''code'' = js_or (code e) (JStr ''UNKNOWN_ERROR'')"
  "field (formatErrorResponse e m u rd) ''method'' = m"
  "field (formatErrorResponse e m u rd) ''url'' = u"
  by (simp_all add: field_own not_inherited formatErrorResponse_def)

lemma formatErrorResponse_response_fields:
  "response e = Some r \<Longrightarrow> field (formatErrorResponse e m u rd) ''status'' = status r"
  "response e = Some r \<Longrightarrow> field (formatErrorResponse e m u rd) ''statusText'' = statusText r"
  "response e = Some r \<Longrightarrow> field (formatErrorResponse e m u rd) ''headers'' = headers r"
  "response e = Some r \<Longrightarrow> field (formatErrorResponse e m u rd) ''data'' = data r"
  by (simp_all add: field_own not_inherited formatErrorResponse_def)

lemma formatErrorResponse_no_response_fields:
  "response e = None \<Longrightarrow> field (formatErrorResponse e m u rd) ''status'' = JUndefined"
  "response e = None \<Longrightarrow> field (formatErrorResponse e m u rd) ''data'' = JUndefined"
  "field (formatErrorResponse e m u rd) ''responseTime'' = JUndefined"
  by (simp_all add: field_own not_inherited formatErrorResponse_def split: option.splits)

text \<open>
  Claim C6, at a response whose two timestamps are present and equal (the call took less
  than a millisecond): the difference is \<open>0\<close>, which \<^verbatim>\<open>||\<close> takes for a missing value,
  and \<open>responseTime\<close> is the sentinel, not \<open>0\<close>.
\<close>

theorem formatApiResponse_zero_elapsed:
  "field (formatApiResponse
            \<lparr>status = JNum ''200'', statusText = JStr ''OK'', headers = JObj [], data = JNull,
             config_metadata =
               Some \<lparr>startTime = Some 1700000000000, endTime = Some 1700000000000\<rparr>\<rparr>
            (JStr ''GET'') (JStr ''http://localhost/ping'') JNull) ''responseTime'' = JStr ''N/A''"
  by (simp add: responseTime_field js_or_def opt_chain_def js_minus_truthy)

text \<open>
  Everything else the specification says of \<^verbatim>\<open>formatApiResponse\<close> holds: \<open>success\<close> is
  true, the four response fields are copied,
  \<open>error\<close> and \<open>code\<close> are not set, \<open>responseTime\<close> is the difference of two timestamps
  that differ, and the sentinel when a timestamp is missing.
\<close>

lemma formatApiResponse_rule:
  "field (formatApiResponse resp m u rd) ''success'' = JBool True \<and>
   field (formatApiResponse resp m u rd) ''status'' = status resp \<and>
   field (formatApiResponse resp m u rd) ''statusText'' = statusText resp \<and>
   field (formatApiResponse resp m u rd) ''headers'' = headers resp \<and>
   field (formatApiResponse resp m u rd) ''data'' = data resp \<and>
   \<not> has_field (formatApiResponse resp m u rd) ''error'' \<and>
   \<not> has_field (formatApiResponse resp m u rd) ''code'' \<and>
   (\<forall>md s e. config_metadata resp = Some md \<longrightarrow> startTime md = Some s \<longrightarrow>
      endTime md = Some e \<longrightarrow> e \<noteq> s \<longrightarrow>
      field (formatApiResponse resp m u rd) ''responseTime'' =
        JNum (show_int (uint e - uint s))) \<and>
   (opt_chain (config_metadata resp) startTime = None \<or>
    opt_chain (config_metadata resp) endTime = None \<longrightarrow>
      field (formatApiResponse resp m u rd) ''responseTime'' = JStr ''N/A'')"
proof -
  have "field (formatApiResponse resp m u rd) ''responseTime'' =
          JNum (show_int (uint e - uint s))"
    if "config_metadata resp = Some md" "startTime md = Some s" "endTime md = Some e" "e \<noteq> s"
    for md s e
    using that js_minus_truthy [of e s]
    by (simp add: responseTime_field js_or_def opt_chain_def) (simp add: js_minus_def)
  moreover have "field (formatApiResponse resp m u rd) ''responseTime'' = JStr ''N/A''"
    if "opt_chain (config_metadata resp) startTime = None \<or>
        opt_chain (config_metadata resp) endTime = None"
    using that by (auto simp add: responseTime_field js_or_def js_minus_def split: option.splits)
  ultimately show ?thesis
    by (simp add: formatApiResponse_fields has_field_def keys_formatApiResponse)
qed

text \<open>
  Claim C8, as amended. \<^verbatim>\<open>formatErrorResponse\<close> sets \<open>success\<close> to false and \<open>error\<close> to
  the message of the failure, which is non-empty whenever the message is; \<open>code\<close> is the code
  of the failure when it has one and \<open>UNKNOWN_ERROR\<close> otherwise, so it is never empty; the
  status, status text, headers and data of a response the failure carried are copied.
\<close>

theorem formatErrorResponse_rule:
  "field (formatErrorResponse e m u rd) ''success'' = JBool False \<and>
   field (formatErrorResponse e m u rd) ''error'' = JStr (message e) \<and>
   (message e \<noteq> [] \<longrightarrow> js_truthy (field (formatErrorResponse e m u rd) ''error'')) \<and>
   field (formatErrorResponse e m u rd) ''code'' =
     (if js_truthy (code e) then code e else JStr ''UNKNOWN_ERROR'') \<and>
   js_truthy (field (formatErrorResponse e m u rd) ''code'') \<and>
   (\<forall>r. response e = Some r \<longrightarrow>
      field (formatErrorResponse e m u rd) ''status'' = status r \<and>
      field (formatErrorResponse e m u rd) ''statusText'' = statusText r \<and>
      field (formatErrorResponse e m u rd) ''headers'' = headers r \<and>
      field (formatErrorResponse e m u rd) ''data'' = data r)"
  by (simp add: formatErrorResponse_fields formatErrorResponse_response_fields js_or_def)

theorem formatErrorResponse_rule_witness:
  "field (formatErrorResponse
            (Exn ''Request failed with status code 404'' (JStr ''ERR_BAD_REQUEST'')
               (Some \<lparr>status = JNum ''404'', statusText = JStr ''Not Found'', headers = JObj [],
                      data = JObj [(''a'', JNum ''1'')], config_metadata = None\<rparr>))
            (JStr ''GET'') (JStr ''http://h/x'') JNull) ''status'' = JNum ''404'' \<and>
   js_truthy (field (formatErrorResponse
            (Exn ''Request failed with status code 404'' (JStr ''ERR_BAD_REQUEST'')
               (Some \<lparr>status = JNum ''404'', statusText = JStr ''Not Found'', headers = JObj [],
                      data = JObj [(''a'', JNum ''1'')], config_metadata = None\<rparr>))
            (JStr ''GET'') (JStr ''http://h/x'') JNull) ''error'')"
  using formatErrorResponse_rule
    [of "Exn ''Request failed with status code 404'' (JStr ''ERR_BAD_REQUEST'')
           (Some \<lparr>status = JNum ''404'', statusText = JStr ''Not Found'', headers = JObj [],
                  data = JObj [(''a'', JNum ''1'')], config_metadata = None\<rparr>)"
        "JStr ''GET''" "JStr ''http://h/x''" JNull]
  by simp

text \<open>
  A failure whose message is empty gives an empty \<open>error\<close>: the claim as stated fails.
\<close>

theorem formatErrorResponse_empty_message:
  "field (formatErrorResponse (Exn [] JUndefined None) (JStr ''GET'') (JStr ''http://h/x'') JNull)
     ''error'' = JStr [] \<and>
   \<not> js_truthy (field (formatErrorResponse (Exn [] JUndefined None) (JStr ''GET'')
                        (JStr ''http://h/x'') JNull) ''error'')"
  by (simp add: formatErrorResponse_fields)

subsection \<open>Cell escaping\<close>

lemma replace_quotes_concat:
  "replace_quotes s = concat (map (\<lambda>c. if c = DQ then [DQ, DQ] else [c]) s)"
  by (induction s) simp_all

text \<open>
  Claim C7. The escaping function maps null and undefined to the empty string; a value
  whose string form contains a comma, a line break (the line feed the source tests for) or
  a double quote becomes that string form between double quotes, with each double quote
  inside it doubled; every other value is rendered as its plain string form. The string
  \<^verbatim>\<open>a,b"c\<close> becomes the cell \<^verbatim>\<open>"a,b""c"\<close>.
\<close>

theorem escapeCsvValue_rule:
  \<open>escapeCsvValue JUndefined = Inr [] \<and> escapeCsvValue JNull = Inr [] \<and>
   (\<forall>v s. v \<noteq> JUndefined \<longrightarrow> v \<noteq> JNull \<longrightarrow> js_String v = Inr s \<longrightarrow>
      escapeCsvValue v =
        Inr (if CHR '','' \<in> set s \<or> LF \<in> set s \<or> DQ \<in> set s
             then [DQ] @ concat (map (\<lambda>c. if c = DQ then [DQ, DQ] else [c]) s) @ [DQ]
             else s)) \<and>
   escapeCsvValue (JStr ''a,b"c'') = Inr ''"a,b""c"''\<close>
  by (simp add: escapeCsvValue_def bind_def replace_quotes_concat)

theorem escapeCsvValue_rule_witness:
  \<open>escapeCsvValue (JNum ''42'') = Inr ''42'' \<and>
   escapeCsvValue (JArr [JNum ''1'', JStr ''x"y'']) = Inr ''"1,x""y"''\<close>
proof -
  have n: "js_String (JNum ''42'') = Inr ''42''"
    by (simp add: show_int_def show_nat.simps)
  have a: \<open>js_String (JArr [JNum ''1'', JStr ''x"y'']) = Inr ''1,x"y''\<close>
    by (simp add: show_int_def show_nat.simps)
  from escapeCsvValue_rule have r:
    "\<And>v s. v \<noteq> JUndefined \<Longrightarrow> v \<noteq> JNull \<Longrightarrow> js_String v = Inr s \<Longrightarrow>
      escapeCsvValue v =
        Inr (if CHR '','' \<in> set s \<or> LF \<in> set s \<or> DQ \<in> set s
             then [DQ] @ concat (map (\<lambda>c. if c = DQ then [DQ, DQ] else [c]) s) @ [DQ]
             else s)"
    by blast
  show ?thesis
    using r [OF _ _ n] r [OF _ _ a] by simp
qed

subsection \<open>Sequencing, metadata row and header keys\<close>

lemma sequence_map_iff:
  "sequence (map f xs) = Inr ys \<longleftrightarrow> list_all2 (\<lambda>x y. f x = Inr y) xs ys"
proof (induction xs arbitrary: ys)
  case Nil
  then show ?case by auto
next
  case (Cons x xs)
  show ?case
  proof (cases "f x")
    case (Inl e)
    then show ?thesis by (auto simp add: list_all2_Cons1)
  next
    case fx: (Inr y)
    show ?thesis
    proof (cases "sequence (map f xs)")
      case (Inl e)
      then have "\<And>zs. \<not> list_all2 (\<lambda>x y. f x = Inr y) xs zs"
        by (simp add: Cons.IH [symmetric])
      with Inl fx show ?thesis by (auto simp add: list_all2_Cons1)
    next
      case (Inr zs)
      then have "\<And>zs'. list_all2 (\<lambda>x y. f x = Inr y) xs zs' \<longleftrightarrow> zs' = zs"
        by (auto simp add: Cons.IH [symmetric])
      with Inr fx show ?thesis by (auto simp add: list_all2_Cons1)
    qed
  qed
qed

lemma sequence_map_total:
  "list_all (\<lambda>x. isl (f x) = False) xs \<Longrightarrow> \<exists>ys. sequence (map f xs) = Inr ys"
proof (induction xs)
  case Nil
  then show ?case by simp
next
  case (Cons x xs)
  then obtain ys where "sequence (map f xs) = Inr ys" by auto
  moreover from Cons.prems obtain y where "f x = Inr y" by (cases "f x") auto
  ultimately show ?case by simp
qed

lemma scalar_String: "scalar v \<Longrightarrow> \<exists>s. js_String v = Inr s"
  by (cases v) simp_all

lemma scalar_escape: "scalar v \<Longrightarrow> \<exists>s. escapeCsvValue v = Inr s"
  using scalar_String [of v] by (auto simp add: escapeCsvValue_def)

lemma scalar_or: "scalar v \<Longrightarrow> scalar (js_or v (JStr s))"
  by (simp add: js_or_def)

lemma escape_JStr:
  "escapeCsvValue (JStr s) =
     Inr (if CHR '','' \<in> set s \<or> LF \<in> set s \<or> DQ \<in> set s
          then [DQ] @ replace_quotes s @ [DQ] else s)"
  by (simp add: escapeCsvValue_def)

lemma metadata_total:
  assumes "scalar_fields r"
  shows "\<exists>m. generateMetadataRow r = Inr m"
proof -
  from assms obtain s where s: "js_String (js_or (field r ''status'') (JStr ''N/A'')) = Inr s"
    using scalar_String scalar_or unfolding scalar_fields_def by blast
  from assms obtain m where m: "js_String (js_or (field r ''method'') (JStr ''N/A'')) = Inr m"
    using scalar_String scalar_or unfolding scalar_fields_def by blast
  from assms obtain u where u: "js_String (js_or (field r ''url'') (JStr ''N/A'')) = Inr u"
    using scalar_String scalar_or unfolding scalar_fields_def by blast
  from assms obtain t where t: "js_String (js_or (field r ''responseTime'') (JStr ''N/A'')) = Inr t"
    using scalar_String scalar_or unfolding scalar_fields_def by blast
  from assms obtain e where e: "js_String (field r ''error'') = Inr e"
    using scalar_String unfolding scalar_fields_def by blast
  show ?thesis
    by (simp add: generateMetadataRow_def s m u t e)
qed

lemma toCsv_error_branch:
  assumes "js_truthy (field r ''error'')"
      and "generateMetadataRow r = Inr m"
      and "escapeCsvValue (field r ''error'') = Inr e"
      and "escapeCsvValue (js_or (field r ''code'') (JStr ''UNKNOWN_ERROR'')) = Inr c"
  shows "toCsv r = Inr (m @ [LF] @ ''error,code,message'' @ [LF] @ e @ '','' @ c @ '','' @ e)"
  using assms by (simp add: toCsv_def toCsv_try_def)

lemma toCsv_data_branch:
  assumes "\<not> js_truthy (field r ''error'')"
      and "generateMetadataRow r = Inr m"
      and "csvContent (field r ''data'') = Inr c"
      and "escapeCsvValue (field r ''status'') = Inr s"
      and "escapeCsvValue (field r ''method'') = Inr me"
      and "escapeCsvValue (field r ''url'') = Inr u"
  shows "toCsv r =
     Inr (m @ [LF] @
          (if c = [] then ''status,method,url'' @ [LF] @ s @ '','' @ me @ '','' @ u else c))"
  using assms by (simp add: toCsv_def toCsv_try_def)

lemma field_update_other:
  "k \<noteq> k' \<Longrightarrow> field (AList.update k' d r) k = field r k"
  by (simp add: field_def update_conv')

lemma metadata_update_data:
  "generateMetadataRow (AList.update ''data'' d r) = generateMetadataRow r"
  by (simp add: generateMetadataRow_def field_update_other)

lemma toCsv_ignores_data:
  assumes "js_truthy (field r ''error'')"
  shows "toCsv (AList.update ''data'' d r) = toCsv r"
proof -
  have "toCsv_try (AList.update ''data'' d r) = toCsv_try r"
    using assms by (simp add: toCsv_try_def field_update_other metadata_update_data)
  then show ?thesis
    by (simp add: toCsv_def metadata_update_data split: sum.splits)
qed

text \<open>
  The header set of the source is the key union of the elements that pass the object test.
  The key union has every key once, and the keys a further element adds come after those
  seen before.
\<close>

lemma rev_remdups_rev_snoc:
  "rev (remdups (rev (l @ [k]))) =
     (if k \<in> set l then rev (remdups (rev l)) else rev (remdups (rev l)) @ [k])"
  by simp

lemma add_keys_first_seen:
  "add_keys (rev (remdups (rev l))) ks = rev (remdups (rev (l @ ks)))"
proof (induction ks arbitrary: l)
  case Nil
  then show ?case by simp
next
  case (Cons k ks)
  have "add_keys (rev (remdups (rev l))) (k # ks) = add_keys (rev (remdups (rev (l @ [k])))) ks"
    by simp
  also have "\<dots> = rev (remdups (rev ((l @ [k]) @ ks)))"
    by (rule Cons.IH)
  finally show ?case by simp
qed

lemma foldl_header_set:
  "foldl (\<lambda>hs obj. if is_object obj then add_keys hs (Object_keys obj) else hs)
      (rev (remdups (rev l))) xs =
   rev (remdups (rev (l @ concat (map Object_keys (filter is_object xs)))))"
proof (induction xs arbitrary: l)
  case Nil
  then show ?case by simp
next
  case (Cons x xs)
  show ?case
  proof (cases "is_object x")
    case True
    then show ?thesis
      using Cons.IH [of "l @ Object_keys x"] by (simp add: add_keys_first_seen)
  next
    case False
    then show ?thesis
      using Cons.IH [of l] by simp
  qed
qed

lemma header_set_key_union: "header_set xs = key_union (filter is_object xs)"
  using foldl_header_set [of "[]" xs] by (simp add: header_set_def key_union_def)

lemma key_union_keys:
  "set (key_union xs) = (\<Union>x\<in>set xs. set (Object_keys x)) \<and> distinct (key_union xs)"
  by (simp add: key_union_def)

lemma key_union_snoc:
  "key_union (xs @ [x]) =
     key_union xs @ filter (\<lambda>k. k \<notin> set (key_union xs)) (rev (remdups (rev (Object_keys x))))"
proof -
  have "rev (remdups (rev (l @ ks))) =
          rev (remdups (rev l)) @ filter (\<lambda>k. k \<notin> set l) (rev (remdups (rev ks)))" for l ks :: "string list"
  proof (induction ks rule: rev_induct)
    case Nil
    then show ?case by simp
  next
    case (snoc k ks)
    have "rev (remdups (rev (l @ ks @ [k]))) =
            (if k \<in> set (l @ ks) then rev (remdups (rev (l @ ks)))
             else rev (remdups (rev (l @ ks))) @ [k])"
      using rev_remdups_rev_snoc [of "l @ ks" k] by simp
    then show ?case
      using snoc.IH by auto
  qed
  from this [of "concat (map Object_keys xs)" "Object_keys x"] show ?thesis
    by (simp add: key_union_def)
qed

lemma header_set_filter: "header_set (filter is_object xs) = header_set xs"
  by (simp add: header_set_key_union)

lemma header_set_empty_iff:
  "header_set xs = [] \<longleftrightarrow> (\<forall>x\<in>set xs. is_object x \<longrightarrow> Object_keys x = [])"
  by (auto simp add: header_set_key_union key_union_def)

lemma header_total: "\<exists>h. csv_header ks = Inr h"
proof -
  have "list_all (\<lambda>k. isl (escapeCsvValue (JStr k)) = False) ks"
    by (simp add: escape_JStr list_all_iff)
  then obtain hs where "sequence (map (\<lambda>k. escapeCsvValue (JStr k)) ks) = Inr hs"
    using sequence_map_total [of "\<lambda>k. escapeCsvValue (JStr k)" ks] by blast
  then show ?thesis by (simp add: csv_header_def)
qed

subsection \<open>The error table\<close>

lemmas csv_eval =
  toCsv_def toCsv_try_def csvContent_def convertArrayOfObjectsToCsv_def convertObjectToCsv_def
  csvRows_def csv_row_def csv_header_def header_set_def generateMetadataRow_def
  escapeCsvValue_def js_or_def field_def Object_prototype_def show_int_def show_nat.simps
  formatErrorResponse_def formatApiResponse_def js_minus_def opt_chain_def

lemma success_no_error:
  assumes "success_shaped r"
  shows "field r ''error'' = JUndefined"
proof -
  from assms have "''error'' \<notin> fst ` set r"
    by (simp add: success_shaped_def has_field_def)
  then have "map_of r ''error'' = None"
    by (simp add: map_of_eq_None_iff)
  then show ?thesis
    by (simp add: field_own not_inherited)
qed

lemma escape_JNum:
  "escapeCsvValue (JNum s) =
     Inr (if CHR '','' \<in> set s \<or> LF \<in> set s \<or> DQ \<in> set s
          then [DQ] @ replace_quotes s @ [DQ] else s)"
  by (simp add: escapeCsvValue_def)

lemma csvContent_scalar:
  "s \<noteq> [] \<Longrightarrow> escapeCsvValue (JStr s) = Inr c \<Longrightarrow>
     csvContent (JStr s) = Inr (''value'' @ [LF] @ c)"
  "n \<noteq> ''0'' \<Longrightarrow> n \<noteq> ''NaN'' \<Longrightarrow> escapeCsvValue (JNum n) = Inr c \<Longrightarrow>
     csvContent (JNum n) = Inr (''value'' @ [LF] @ c)"
  by (simp_all add: csvContent_def)

lemma csvContent_empty:
  "d \<in> {JUndefined, JNull, JStr [], JArr [], JObj []} \<Longrightarrow> csvContent d = Inr []"
  by (auto simp add: csvContent_def convertArrayOfObjectsToCsv_def convertObjectToCsv_def)

text \<open>
  Claim C1, as amended. For a result whose \<open>error\<close> is truthy (every failure-shaped result
  with a non-empty message) \<^verbatim>\<open>toCsv\<close> emits the comment line and the error table: the
  header \<^verbatim>\<open>error,code,message\<close> and one row with the error text, the code and the error
  text again. It does so whether or not the result carries body data: replacing \<open>data\<close> by any
  value leaves the output unchanged. Only for a result whose \<open>error\<close> is absent or empty is
  \<open>data\<close> inspected; the table computed from it, when there is one, follows the comment line.
\<close>

theorem toCsv_error_table:
  assumes "scalar_fields r"
  shows "\<exists>m. generateMetadataRow r = Inr m \<and>
    (js_truthy (field r ''error'') \<longrightarrow>
       (\<exists>e c. escapeCsvValue (field r ''error'') = Inr e \<and>
              escapeCsvValue (js_or (field r ''code'') (JStr ''UNKNOWN_ERROR'')) = Inr c \<and>
              toCsv r = Inr (m @ [LF] @ ''error,code,message'' @ [LF] @ e @ '','' @ c @ '','' @ e)) \<and>
       (\<forall>d. toCsv (AList.update ''data'' d r) = toCsv r)) \<and>
    (\<not> js_truthy (field r ''error'') \<longrightarrow>
       (\<forall>c. csvContent (field r ''data'') = Inr c \<longrightarrow> c \<noteq> [] \<longrightarrow> toCsv r = Inr (m @ [LF] @ c)))"
proof -
  from assms obtain m where m: "generateMetadataRow r = Inr m"
    using metadata_total by blast
  from assms obtain e where e: "escapeCsvValue (field r ''error'') = Inr e"
    using scalar_escape unfolding scalar_fields_def by blast
  from assms obtain c where c: "escapeCsvValue (js_or (field r ''code'') (JStr ''UNKNOWN_ERROR'')) = Inr c"
    using scalar_escape scalar_or unfolding scalar_fields_def by blast
  from assms obtain s where s: "escapeCsvValue (field r ''status'') = Inr s"
    using scalar_escape unfolding scalar_fields_def by blast
  from assms obtain me where me: "escapeCsvValue (field r ''method'') = Inr me"
    using scalar_escape unfolding scalar_fields_def by blast
  from assms obtain u where u: "escapeCsvValue (field r ''url'') = Inr u"
    using scalar_escape unfolding scalar_fields_def by blast
  have "js_truthy (field r ''error'') \<Longrightarrow>
      toCsv r = Inr (m @ [LF] @ ''error,code,message'' @ [LF] @ e @ '','' @ c @ '','' @ e)"
    using toCsv_error_branch [OF _ m e c] by simp
  moreover have "\<And>d. js_truthy (field r ''error'') \<Longrightarrow> toCsv (AList.update ''data'' d r) = toCsv r"
    by (rule toCsv_ignores_data)
  moreover have "\<And>t. \<not> js_truthy (field r ''error'') \<Longrightarrow> csvContent (field r ''data'') = Inr t \<Longrightarrow>
      t \<noteq> [] \<Longrightarrow> toCsv r = Inr (m @ [LF] @ t)"
    using toCsv_data_branch [OF _ m _ s me u] by simp
  ultimately show ?thesis
    using m e c by auto
qed

lemma r404_facts:
  "scalar_fields r404" "js_truthy (field r404 ''error'')" "failure_shaped r404"
  "field r404 ''data'' = JObj [(''a'', JNum ''1'')]"
  by (simp_all add: r404_def scalar_fields_def formatErrorResponse_fields
      formatErrorResponse_response_fields formatErrorResponse_no_response_fields js_or_def
      normalizer_result_shapes)

theorem toCsv_error_table_witness:
  "scalar_fields r404 \<and> js_truthy (field r404 ''error'') \<and>
   toCsv (AList.update ''data'' JNull r404) = toCsv r404"
  using toCsv_error_table [of r404] r404_facts by blast

text \<open>
  The result of a 404 response with the JSON body \<^verbatim>\<open>{"a":1}\<close> is failure-shaped and its
  data projects to the table \<^verbatim>\<open>a\<close> / \<^verbatim>\<open>1\<close>, yet \<^verbatim>\<open>toCsv\<close> emits the error table:
  the claim as stated fails.
\<close>

theorem toCsv_error_with_body:
  "failure_shaped r404 \<and>
   csvContent (field r404 ''data'') = Inr (''a'' @ [LF] @ ''1'') \<and>
   toCsv r404 =
     Inr (''# status:404|method:GET|url:http://h/x|time:N/Ams|error:Request failed with status code 404''
          @ [LF] @ ''error,code,message'' @ [LF] @
          ''Request failed with status code 404,ERR_BAD_REQUEST,Request failed with status code 404'')"
proof -
  have "csvContent (field r404 ''data'') = Inr (''a'' @ [LF] @ ''1'')"
    by (simp add: r404_facts csvContent_def convertObjectToCsv_def csv_header_def csv_row_def
        escape_JStr escape_JNum show_int_def show_nat.simps)
  moreover have "toCsv r404 =
     Inr (''# status:404|method:GET|url:http://h/x|time:N/Ams|error:Request failed with status code 404''
          @ [LF] @ ''error,code,message'' @ [LF] @
          ''Request failed with status code 404,ERR_BAD_REQUEST,Request failed with status code 404'')"
    by (simp add: r404_def csv_eval)
  ultimately show ?thesis
    using r404_facts by simp
qed

subsection \<open>Scalars and the fallback table\<close>

lemma ok_result_facts:
  "success_shaped (ok_result d)" "scalar_fields (ok_result d)" "field (ok_result d) ''data'' = d"
  by (simp_all add: ok_result_def ok_response_def normalizer_result_shapes scalar_fields_def
      formatApiResponse_fields responseTime_field js_or_def js_minus_def opt_chain_def)

lemma ok_result_meta:
  "generateMetadataRow (ok_result d) = Inr ''# status:200|method:GET|url:http://h/x|time:42ms''"
  by (simp add: generateMetadataRow_def ok_result_def ok_response_def formatApiResponse_fields
      responseTime_field js_or_def js_minus_def opt_chain_def show_int_def show_nat.simps)

text \<open>
  Claim C9, as amended. For a success-shaped result, \<^verbatim>\<open>toCsv\<close> emits the comment line
  followed by the header \<^verbatim>\<open>value\<close> and the scalar as one cell, escaped from its string
  form, when \<open>data\<close> is a non-empty string or a number other than zero and \<^verbatim>\<open>NaN\<close>
  (an integer, a fraction or a number printed with an exponent alike); when \<open>data\<close> is
  absent, null, the empty string, an empty array or an empty object, it emits the header
  \<^verbatim>\<open>status,method,url\<close> and one row with those three fields of the result.
\<close>

theorem toCsv_scalar_or_fallback:
  assumes "success_shaped r" and "scalar_fields r"
  shows "\<exists>m s me u.
    generateMetadataRow r = Inr m \<and>
    escapeCsvValue (field r ''status'') = Inr s \<and>
    escapeCsvValue (field r ''method'') = Inr me \<and>
    escapeCsvValue (field r ''url'') = Inr u \<and>
    (\<forall>str. field r ''data'' = JStr str \<longrightarrow> str \<noteq> [] \<longrightarrow>
       (\<exists>c. escapeCsvValue (JStr str) = Inr c \<and>
            toCsv r = Inr (m @ [LF] @ ''value'' @ [LF] @ c))) \<and>
    (\<forall>n. field r ''data'' = JNum n \<longrightarrow> n \<noteq> ''0'' \<longrightarrow> n \<noteq> ''NaN'' \<longrightarrow>
       (\<exists>c. escapeCsvValue (JNum n) = Inr c \<and>
            toCsv r = Inr (m @ [LF] @ ''value'' @ [LF] @ c))) \<and>
    (field r ''data'' \<in> {JUndefined, JNull, JStr [], JArr [], JObj []} \<longrightarrow>
       toCsv r = Inr (m @ [LF] @ ''status,method,url'' @ [LF] @ s @ '','' @ me @ '','' @ u))"
proof -
  have ne: "\<not> js_truthy (field r ''error'')"
    using assms(1) by (simp add: success_no_error)
  from assms(2) obtain m where m: "generateMetadataRow r = Inr m"
    using metadata_total by blast
  from assms(2) obtain s where s: "escapeCsvValue (field r ''status'') = Inr s"
    using scalar_escape unfolding scalar_fields_def by blast
  from assms(2) obtain me where me: "escapeCsvValue (field r ''method'') = Inr me"
    using scalar_escape unfolding scalar_fields_def by blast
  from assms(2) obtain u where u: "escapeCsvValue (field r ''url'') = Inr u"
    using scalar_escape unfolding scalar_fields_def by blast
  note branch = toCsv_data_branch [OF ne m _ s me u]
  have str: "\<And>str. field r ''data'' = JStr str \<Longrightarrow> str \<noteq> [] \<Longrightarrow>
       \<exists>c. escapeCsvValue (JStr str) = Inr c \<and> toCsv r = Inr (m @ [LF] @ ''value'' @ [LF] @ c)"
  proof -
    fix str assume d: "field r ''data'' = JStr str" and n: "str \<noteq> []"
    obtain c where c: "escapeCsvValue (JStr str) = Inr c"
      by (simp add: escape_JStr)
    have "csvContent (field r ''data'') = Inr (''value'' @ [LF] @ c)"
      using d n c by (simp add: csvContent_scalar)
    from branch [OF this] c
    show "\<exists>c. escapeCsvValue (JStr str) = Inr c \<and> toCsv r = Inr (m @ [LF] @ ''value'' @ [LF] @ c)"
      by simp
  qed
  have num: "\<And>n. field r ''data'' = JNum n \<Longrightarrow> n \<noteq> ''0'' \<Longrightarrow> n \<noteq> ''NaN'' \<Longrightarrow>
       \<exists>c. escapeCsvValue (JNum n) = Inr c \<and> toCsv r = Inr (m @ [LF] @ ''value'' @ [LF] @ c)"
  proof -
    fix n assume d: "field r ''data'' = JNum n" and n: "n \<noteq> ''0''" "n \<noteq> ''NaN''"
    obtain c where c: "escapeCsvValue (JNum n) = Inr c"
      by (simp add: escape_JNum)
    have "csvContent (field r ''data'') = Inr (''value'' @ [LF] @ c)"
      using d n c by (simp add: csvContent_scalar)
    from branch [OF this] c
    show "\<exists>c. escapeCsvValue (JNum n) = Inr c \<and> toCsv r = Inr (m @ [LF] @ ''value'' @ [LF] @ c)"
      by simp
  qed
  have emp: "field r ''data'' \<in> {JUndefined, JNull, JStr [], JArr [], JObj []} \<Longrightarrow>
       toCsv r = Inr (m @ [LF] @ ''status,method,url'' @ [LF] @ s @ '','' @ me @ '','' @ u)"
  proof -
    assume "field r ''data'' \<in> {JUndefined, JNull, JStr [], JArr [], JObj []}"
    then have "csvContent (field r ''data'') = Inr []"
      by (rule csvContent_empty)
    from branch [OF this]
    show "toCsv r = Inr (m @ [LF] @ ''status,method,url'' @ [LF] @ s @ '','' @ me @ '','' @ u)"
      by simp
  qed
  show ?thesis
    using m s me u str num emp by blast
qed

theorem toCsv_scalar_or_fallback_witness:
  "toCsv (ok_result (JStr ''pong'')) =
     Inr (''# status:200|method:GET|url:http://h/x|time:42ms'' @ [LF] @ ''value'' @ [LF] @ ''pong'') \<and>
   toCsv (ok_result (JNum ''7'')) =
     Inr (''# status:200|method:GET|url:http://h/x|time:42ms'' @ [LF] @ ''value'' @ [LF] @ ''7'') \<and>
   toCsv (ok_result (JNum ''1e+21'')) =
     Inr (''# status:200|method:GET|url:http://h/x|time:42ms'' @ [LF] @ ''value'' @ [LF] @ ''1e+21'') \<and>
   toCsv (ok_result (JArr [])) =
     Inr (''# status:200|method:GET|url:http://h/x|time:42ms'' @ [LF] @ ''status,method,url''
          @ [LF] @ ''200,GET,http://h/x'')"
proof -
  have e: "escapeCsvValue (JStr ''pong'') = Inr ''pong''"
          "escapeCsvValue (JNum ''200'') = Inr ''200''"
          "escapeCsvValue (JStr ''GET'') = Inr ''GET''"
          "escapeCsvValue (JStr ''http://h/x'') = Inr ''http://h/x''"
          "escapeCsvValue (JNum ''7'') = Inr ''7''"
          "escapeCsvValue (JNum ''1e+21'') = Inr ''1e+21''"
    by (simp_all add: escape_JStr escape_JNum)
  have f: "field (ok_result d) ''status'' = JNum ''200''" "field (ok_result d) ''method'' = JStr ''GET''"
          "field (ok_result d) ''url'' = JStr ''http://h/x''" for d
    by (simp_all add: ok_result_def ok_response_def formatApiResponse_fields)
  show ?thesis
    using toCsv_scalar_or_fallback [OF ok_result_facts(1,2), of "JStr ''pong''"]
          toCsv_scalar_or_fallback [OF ok_result_facts(1,2), of "JNum ''7''"]
          toCsv_scalar_or_fallback [OF ok_result_facts(1,2), of "JNum ''1e+21''"]
          toCsv_scalar_or_fallback [OF ok_result_facts(1,2), of "JArr []"]
    by (simp add: ok_result_facts(3) ok_result_meta e f)
qed

text \<open>
  An empty string is a scalar, but the test \<^verbatim>\<open>if (result.data)\<close> takes it for missing
  data: the result is the \<^verbatim>\<open>status,method,url\<close> table, not a \<^verbatim>\<open>value\<close> table with an
  empty cell. The claim as stated fails.
\<close>

theorem toCsv_empty_string_body:
  "success_shaped (ok_result (JStr [])) \<and>
   toCsv (ok_result (JStr [])) =
     Inr (''# status:200|method:GET|url:http://h/x|time:42ms'' @ [LF] @ ''status,method,url''
          @ [LF] @ ''200,GET,http://h/x'') \<and>
   toCsv (ok_result (JStr [])) \<noteq>
     Inr (''# status:200|method:GET|url:http://h/x|time:42ms'' @ [LF] @ ''value'' @ [LF] @ [])"
proof -
  have "toCsv (ok_result (JStr [])) =
     Inr (''# status:200|method:GET|url:http://h/x|time:42ms'' @ [LF] @ ''status,method,url''
          @ [LF] @ ''200,GET,http://h/x'')"
    by (simp add: ok_result_def ok_response_def csv_eval)
  then show ?thesis
    by (simp add: ok_result_facts)
qed

subsection \<open>Arrays of objects\<close>

lemma csv_row_iff:
  "csv_row hdr x = Inr row \<longleftrightarrow>
     (\<exists>cells. list_all2 (\<lambda>k c. escapeCsvValue (js_get x k) = Inr c) hdr cells \<and>
              row = join '','' cells)"
proof (cases "sequence (map (\<lambda>header. escapeCsvValue (js_get x header)) hdr)")
  case (Inl e)
  then have "\<And>cells. \<not> list_all2 (\<lambda>k c. escapeCsvValue (js_get x k) = Inr c) hdr cells"
    by (simp add: sequence_map_iff [symmetric])
  with Inl show ?thesis by (simp add: csv_row_def)
next
  case (Inr cs)
  then have "\<And>cells. list_all2 (\<lambda>k c. escapeCsvValue (js_get x k) = Inr c) hdr cells \<longleftrightarrow> cells = cs"
    by (auto simp add: sequence_map_iff [symmetric])
  with Inr show ?thesis by (auto simp add: csv_row_def)
qed

lemma csv_row_total:
  assumes "list_all (\<lambda>h. isl (escapeCsvValue (js_get x h)) = False) hdr"
  shows "\<exists>row. csv_row hdr x = Inr row"
proof -
  from assms obtain cs where "sequence (map (\<lambda>h. escapeCsvValue (js_get x h)) hdr) = Inr cs"
    using sequence_map_total [of "\<lambda>h. escapeCsvValue (js_get x h)" hdr] by blast
  then show ?thesis by (simp add: csv_row_def)
qed

lemma rows_total:
  assumes "cells_printable xs"
  shows "\<exists>rows. sequence (map (csv_row (header_set xs)) (filter is_object xs)) = Inr rows"
proof -
  have "list_all (\<lambda>x. isl (csv_row (header_set xs) x) = False) (filter is_object xs)"
    unfolding list_all_iff
  proof
    fix x assume "x \<in> set (filter is_object xs)"
    with assms have "list_all (\<lambda>h. isl (escapeCsvValue (js_get x h)) = False) (header_set xs)"
      by (simp add: cells_printable_def list_all_iff)
    then obtain row where "csv_row (header_set xs) x = Inr row"
      using csv_row_total by blast
    then show "isl (csv_row (header_set xs) x) = False" by simp
  qed
  then show ?thesis
    using sequence_map_total [of "csv_row (header_set xs)" "filter is_object xs"] by blast
qed

lemma absent_cell:
  "absent_key x k \<Longrightarrow> escapeCsvValue (js_get x k) = Inr c \<Longrightarrow> c = []"
  by (simp add: absent_key_def escapeCsvValue_def)

lemma join_two_nonempty: "rows \<noteq> [] \<Longrightarrow> join [LF] (h # rows) \<noteq> []"
  by (cases rows) simp_all

lemma convertArray_rows:
  assumes "header_set xs \<noteq> []" and "cells_printable xs"
  shows "\<exists>h rows. csv_header (header_set xs) = Inr h \<and>
           sequence (map (csv_row (header_set xs)) (filter is_object xs)) = Inr rows \<and>
           csvRows (header_set xs) xs = Inr (h # rows) \<and>
           convertArrayOfObjectsToCsv (JArr xs) = Inr (join [LF] (h # rows))"
proof -
  obtain h where h: "csv_header (header_set xs) = Inr h"
    using header_total by blast
  obtain rows where rows: "sequence (map (csv_row (header_set xs)) (filter is_object xs)) = Inr rows"
    using rows_total [OF assms(2)] by blast
  have ne: "xs \<noteq> []"
    using assms(1) by (auto simp add: header_set_def)
  have "csvRows (header_set xs) xs = Inr (h # rows)"
    by (simp add: csvRows_def h rows)
  moreover from this have "convertArrayOfObjectsToCsv (JArr xs) = Inr (join [LF] (h # rows))"
    using assms(1) ne by (simp add: convertArrayOfObjectsToCsv_def Let_def)
  ultimately show ?thesis
    using h rows by blast
qed

text \<open>
  Claim C2, as amended. For a success-shaped result whose \<open>data\<close> is an array of objects, at
  least one of which has a key, and whose cells all have a string form, \<^verbatim>\<open>toCsv\<close> emits
  the comment line, a header row with the union of the keys of all elements in first-seen
  order (each escaped as a cell), and one row for each element, in order, whose cells are
  the element's values read by header key; a key an element neither has nor inherits gives
  an empty cell.
\<close>

theorem toCsv_array_of_objects:
  assumes "success_shaped r" and "scalar_fields r"
      and "field r ''data'' = JArr xs"
      and "\<forall>x\<in>set xs. is_object x"
      and "\<exists>x\<in>set xs. Object_keys x \<noteq> []"
      and "cells_printable xs"
  shows "\<exists>m hcells rows.
    generateMetadataRow r = Inr m \<and>
    list_all2 (\<lambda>k c. escapeCsvValue (JStr k) = Inr c) (key_union xs) hcells \<and>
    list_all2 (\<lambda>x row. \<exists>cells.
        list_all2 (\<lambda>k c. escapeCsvValue (js_get x k) = Inr c \<and> (absent_key x k \<longrightarrow> c = []))
          (key_union xs) cells \<and>
        row = join '','' cells) xs rows \<and>
    toCsv r = Inr (m @ [LF] @ join [LF] (join '','' hcells # rows))"
proof -
  have all: "filter is_object xs = xs"
    using assms(4) by (simp add: filter_id_conv)
  have hs: "header_set xs = key_union xs"
    by (simp add: header_set_key_union all)
  have hne: "header_set xs \<noteq> []"
    using assms(4,5) by (auto simp add: header_set_empty_iff)
  from convertArray_rows [OF hne assms(6)] obtain h rows where
    h: "csv_header (key_union xs) = Inr h" and
    rows: "sequence (map (csv_row (key_union xs)) xs) = Inr rows" and
    conv: "convertArrayOfObjectsToCsv (JArr xs) = Inr (join [LF] (h # rows))"
    by (auto simp add: hs all)
  from h obtain hcells where
    hcells: "sequence (map (\<lambda>k. escapeCsvValue (JStr k)) (key_union xs)) = Inr hcells" and
    hj: "h = join '','' hcells"
    by (cases "sequence (map (\<lambda>k. escapeCsvValue (JStr k)) (key_union xs))")
       (auto simp add: csv_header_def)
  have hl: "list_all2 (\<lambda>k c. escapeCsvValue (JStr k) = Inr c) (key_union xs) hcells"
    using hcells by (simp add: sequence_map_iff)
  have "list_all2 (\<lambda>x row. csv_row (key_union xs) x = Inr row) xs rows"
    using rows by (simp add: sequence_map_iff)
  then have rl: "list_all2 (\<lambda>x row. \<exists>cells.
        list_all2 (\<lambda>k c. escapeCsvValue (js_get x k) = Inr c \<and> (absent_key x k \<longrightarrow> c = []))
          (key_union xs) cells \<and>
        row = join '','' cells) xs rows"
  proof (rule list_all2_mono)
    fix x row assume "csv_row (key_union xs) x = Inr row"
    then obtain cells where
      c: "list_all2 (\<lambda>k c. escapeCsvValue (js_get x k) = Inr c) (key_union xs) cells" and
      j: "row = join '','' cells"
      by (auto simp add: csv_row_iff)
    from c have "list_all2 (\<lambda>k c. escapeCsvValue (js_get x k) = Inr c \<and> (absent_key x k \<longrightarrow> c = []))
          (key_union xs) cells"
      by (rule list_all2_mono) (auto dest: absent_cell)
    with j show "\<exists>cells.
        list_all2 (\<lambda>k c. escapeCsvValue (js_get x k) = Inr c \<and> (absent_key x k \<longrightarrow> c = []))
          (key_union xs) cells \<and>
        row = join '','' cells"
      by blast
  qed
  have xne: "xs \<noteq> []"
    using assms(5) by auto
  then have rne: "rows \<noteq> []"
    using rl by (auto simp add: list_all2_conv_all_nth)
  have content: "csvContent (field r ''data'') = Inr (join [LF] (h # rows))"
    using conv by (simp add: assms(3) csvContent_def)
  have ne: "\<not> js_truthy (field r ''error'')"
    using assms(1) by (simp add: success_no_error)
  from assms(2) obtain m where m: "generateMetadataRow r = Inr m"
    using metadata_total by blast
  from assms(2) obtain s where s: "escapeCsvValue (field r ''status'') = Inr s"
    using scalar_escape unfolding scalar_fields_def by blast
  from assms(2) obtain me where me: "escapeCsvValue (field r ''method'') = Inr me"
    using scalar_escape unfolding scalar_fields_def by blast
  from assms(2) obtain u where u: "escapeCsvValue (field r ''url'') = Inr u"
    using scalar_escape unfolding scalar_fields_def by blast
  have "toCsv r = Inr (m @ [LF] @ join [LF] (join '','' hcells # rows))"
    using toCsv_data_branch [OF ne m content s me u] join_two_nonempty [OF rne, of h]
    by (simp add: hj)
  with m hl rl show ?thesis by blast
qed

lemma xy_facts:
  "key_union xy_rows = [''x'', ''y'']"
  "\<forall>x\<in>set xy_rows. is_object x"
  "\<exists>x\<in>set xy_rows. Object_keys x \<noteq> []"
  "cells_printable xy_rows"
  by (simp_all add: xy_rows_def key_union_def cells_printable_def header_set_def
      escapeCsvValue_def Object_prototype_def show_int_def show_nat.simps)

text \<open>
  The example of the claim: \<^verbatim>\<open>[{"x":1},{"y":2}]\<close> gives the header \<^verbatim>\<open>x,y\<close> and the rows
  \<^verbatim>\<open>1,\<close> and \<^verbatim>\<open>,2\<close>.
\<close>

theorem toCsv_array_of_objects_witness:
  "toCsv (ok_result (JArr xy_rows)) =
     Inr (''# status:200|method:GET|url:http://h/x|time:42ms'' @ [LF] @ ''x,y'' @ [LF] @ ''1,''
          @ [LF] @ '',2'')"
proof -
  from toCsv_array_of_objects [OF ok_result_facts(1,2) ok_result_facts(3) xy_facts(2,3,4)]
  obtain m hcells rows where
    m: "generateMetadataRow (ok_result (JArr xy_rows)) = Inr m" and
    h: "list_all2 (\<lambda>k c. escapeCsvValue (JStr k) = Inr c) (key_union xy_rows) hcells" and
    r: "list_all2 (\<lambda>x row. \<exists>cells.
        list_all2 (\<lambda>k c. escapeCsvValue (js_get x k) = Inr c \<and> (absent_key x k \<longrightarrow> c = []))
          (key_union xy_rows) cells \<and>
        row = join '','' cells) xy_rows rows" and
    t: "toCsv (ok_result (JArr xy_rows)) = Inr (m @ [LF] @ join [LF] (join '','' hcells # rows))"
    by blast
  have m': "m = ''# status:200|method:GET|url:http://h/x|time:42ms''"
    using m by (simp add: ok_result_meta)
  have h': "hcells = [''x'', ''y'']"
    using h by (auto simp add: xy_facts(1) list_all2_Cons1 escape_JStr)
  have "list_all2 (\<lambda>x row. csv_row [''x'', ''y''] x = Inr row) xy_rows rows"
    using r [unfolded xy_facts(1)]
  proof (rule list_all2_mono)
    fix x row
    assume "\<exists>cells.
        list_all2 (\<lambda>k c. escapeCsvValue (js_get x k) = Inr c \<and> (absent_key x k \<longrightarrow> c = []))
          [''x'', ''y''] cells \<and>
        row = join '','' cells"
    then obtain cells where
      c: "list_all2 (\<lambda>k c. escapeCsvValue (js_get x k) = Inr c \<and> (absent_key x k \<longrightarrow> c = []))
            [''x'', ''y''] cells" and
      j: "row = join '','' cells"
      by blast
    from c have "list_all2 (\<lambda>k c. escapeCsvValue (js_get x k) = Inr c) [''x'', ''y''] cells"
      by (rule list_all2_mono) simp
    with j show "csv_row [''x'', ''y''] x = Inr row"
      by (auto simp add: csv_row_iff)
  qed
  then have r': "rows = [''1,'', '',2'']"
    by (auto simp add: xy_rows_def list_all2_Cons1 csv_row_def escapeCsvValue_def
        Object_prototype_def show_int_def show_nat.simps)
  show ?thesis
    using t by (simp add: m' h' r')
qed

text \<open>
  A non-empty array of objects without keys: the union of the keys is empty, the source
  returns the empty string for it, and \<^verbatim>\<open>toCsv\<close> emits the \<^verbatim>\<open>status,method,url\<close>
  table, not an empty header row and one row for the element. The claim as stated fails.
\<close>

theorem toCsv_array_of_empty_objects:
  "success_shaped (ok_result (JArr [JObj []])) \<and>
   is_object (JObj []) \<and>
   key_union [JObj []] = [] \<and>
   toCsv (ok_result (JArr [JObj []])) =
     Inr (''# status:200|method:GET|url:http://h/x|time:42ms'' @ [LF] @ ''status,method,url''
          @ [LF] @ ''200,GET,http://h/x'') \<and>
   toCsv (ok_result (JArr [JObj []])) \<noteq>
     Inr (''# status:200|method:GET|url:http://h/x|time:42ms'' @ [LF] @
          join [LF] (join '','' [] # [join '','' []]))"
proof -
  have "toCsv (ok_result (JArr [JObj []])) =
     Inr (''# status:200|method:GET|url:http://h/x|time:42ms'' @ [LF] @ ''status,method,url''
          @ [LF] @ ''200,GET,http://h/x'')"
    by (simp add: ok_result_def ok_response_def csv_eval)
  then show ?thesis
    by (simp add: ok_result_facts key_union_def)
qed

lemma convertArray_filter:
  "convertArrayOfObjectsToCsv (JArr (filter is_object xs)) = convertArrayOfObjectsToCsv (JArr xs)"
proof (cases "header_set xs = []")
  case True
  then show ?thesis
    by (simp add: convertArrayOfObjectsToCsv_def header_set_filter Let_def)
next
  case False
  then have "xs \<noteq> []" "filter is_object xs \<noteq> []"
    by (auto simp add: header_set_empty_iff filter_empty_conv)
  then show ?thesis
    by (simp add: convertArrayOfObjectsToCsv_def header_set_filter Let_def csvRows_def)
qed

lemma sequence_map_Inl:
  assumes "x \<in> set xs" and "isl (f x)"
  shows "\<exists>e. sequence (map f xs) = Inl e"
proof (cases "sequence (map f xs)")
  case (Inl e)
  then show ?thesis by blast
next
  case (Inr ys)
  then have "list_all2 (\<lambda>x y. f x = Inr y) xs ys"
    by (simp add: sequence_map_iff)
  with assms(1) obtain y where "f x = Inr y"
    by (auto simp add: list_all2_conv_all_nth in_set_conv_nth)
  with assms(2) show ?thesis by simp
qed

lemma convertArray_throws:
  assumes "header_set xs \<noteq> []" and "\<not> cells_printable xs"
  shows "\<exists>e. csvRows (header_set xs) xs = Inl e \<and> convertArrayOfObjectsToCsv (JArr xs) = Inl e"
proof -
  from assms(2) obtain x h where
    x: "x \<in> set (filter is_object xs)" and h: "h \<in> set (header_set xs)" and
    c: "isl (escapeCsvValue (js_get x h))"
    by (auto simp add: cells_printable_def list_all_iff)
  from h c obtain e where
    "sequence (map (\<lambda>header. escapeCsvValue (js_get x header)) (header_set xs)) = Inl e"
    using sequence_map_Inl [of h "header_set xs" "\<lambda>header. escapeCsvValue (js_get x header)"]
    by blast
  then have "isl (csv_row (header_set xs) x)"
    by (simp add: csv_row_def)
  with x obtain e' where
    r: "sequence (map (csv_row (header_set xs)) (filter is_object xs)) = Inl e'"
    using sequence_map_Inl [of x "filter is_object xs" "csv_row (header_set xs)"] by blast
  obtain hd where hd: "csv_header (header_set xs) = Inr hd"
    using header_total by blast
  have ne: "xs \<noteq> []"
    using assms(1) by (auto simp add: header_set_def)
  have "csvRows (header_set xs) xs = Inl e'"
    by (simp add: csvRows_def hd r)
  moreover from this have "convertArrayOfObjectsToCsv (JArr xs) = Inl e'"
    using assms(1) ne by (simp add: convertArrayOfObjectsToCsv_def Let_def)
  ultimately show ?thesis by blast
qed

text \<open>
  Claim C10, as amended. In \<^verbatim>\<open>convertArrayOfObjectsToCsv\<close> the elements that fail the
  object test (null, numbers, strings, booleans) add no key to the header and no row: the
  header is the key union of the object elements, and the result equals that for the array
  without them. When every cell has a string form, the number of data rows is the number of
  object elements, at most the length of the array and smaller in the example, where four
  elements give one row; when some cell has none, the conversion throws and no row is
  emitted. An array with no object that has a key gives the empty string, and for a
  success-shaped result \<^verbatim>\<open>toCsv\<close> then emits the \<^verbatim>\<open>status,method,url\<close> table.
\<close>

theorem convertArray_skips_non_objects:
  "header_set xs = key_union (filter is_object xs) \<and>
   convertArrayOfObjectsToCsv (JArr xs) = convertArrayOfObjectsToCsv (JArr (filter is_object xs)) \<and>
   (header_set xs \<noteq> [] \<longrightarrow> cells_printable xs \<longrightarrow>
      (\<exists>h rows. csvRows (header_set xs) xs = Inr (h # rows) \<and>
                length rows = length (filter is_object xs) \<and>
                length rows \<le> length xs \<and>
                convertArrayOfObjectsToCsv (JArr xs) = Inr (join [LF] (h # rows)))) \<and>
   (header_set xs \<noteq> [] \<longrightarrow> \<not> cells_printable xs \<longrightarrow>
      (\<exists>e. csvRows (header_set xs) xs = Inl e \<and> convertArrayOfObjectsToCsv (JArr xs) = Inl e)) \<and>
   ((\<forall>x\<in>set xs. is_object x \<longrightarrow> Object_keys x = []) \<longrightarrow>
      convertArrayOfObjectsToCsv (JArr xs) = Inr [] \<and>
      (\<forall>r. success_shaped r \<longrightarrow> scalar_fields r \<longrightarrow> field r ''data'' = JArr xs \<longrightarrow>
         (\<exists>m s me u.
            generateMetadataRow r = Inr m \<and>
            escapeCsvValue (field r ''status'') = Inr s \<and>
            escapeCsvValue (field r ''method'') = Inr me \<and>
            escapeCsvValue (field r ''url'') = Inr u \<and>
            toCsv r = Inr (m @ [LF] @ ''status,method,url'' @ [LF] @ s @ '','' @ me @ '','' @ u)))) \<and>
   convertArrayOfObjectsToCsv (JArr mixed_rows) = Inr (''a'' @ [LF] @ ''1'')"
proof -
  have rows: "\<exists>h rows. csvRows (header_set xs) xs = Inr (h # rows) \<and>
                length rows = length (filter is_object xs) \<and>
                length rows \<le> length xs \<and>
                convertArrayOfObjectsToCsv (JArr xs) = Inr (join [LF] (h # rows))"
    if "header_set xs \<noteq> []" "cells_printable xs"
  proof -
    from convertArray_rows [OF that] obtain h rows where
      s: "sequence (map (csv_row (header_set xs)) (filter is_object xs)) = Inr rows" and
      c: "csvRows (header_set xs) xs = Inr (h # rows)" and
      t: "convertArrayOfObjectsToCsv (JArr xs) = Inr (join [LF] (h # rows))"
      by blast
    from s have "length rows = length (filter is_object xs)"
      by (auto simp add: sequence_map_iff dest: list_all2_lengthD)
    then show ?thesis
      using c t by auto
  qed
  have empty: "convertArrayOfObjectsToCsv (JArr xs) = Inr []"
    if "\<forall>x\<in>set xs. is_object x \<longrightarrow> Object_keys x = []"
    using that by (simp add: convertArrayOfObjectsToCsv_def header_set_empty_iff Let_def)
  have fallback: "\<exists>m s me u.
            generateMetadataRow r = Inr m \<and>
            escapeCsvValue (field r ''status'') = Inr s \<and>
            escapeCsvValue (field r ''method'') = Inr me \<and>
            escapeCsvValue (field r ''url'') = Inr u \<and>
            toCsv r = Inr (m @ [LF] @ ''status,method,url'' @ [LF] @ s @ '','' @ me @ '','' @ u)"
    if e: "\<forall>x\<in>set xs. is_object x \<longrightarrow> Object_keys x = []"
      and r: "success_shaped r" "scalar_fields r" "field r ''data'' = JArr xs" for r
  proof -
    have ne: "\<not> js_truthy (field r ''error'')"
      using r(1) by (simp add: success_no_error)
    from r(2) obtain m where m: "generateMetadataRow r = Inr m"
      using metadata_total by blast
    from r(2) obtain s where s: "escapeCsvValue (field r ''status'') = Inr s"
      using scalar_escape unfolding scalar_fields_def by blast
    from r(2) obtain me where me: "escapeCsvValue (field r ''method'') = Inr me"
      using scalar_escape unfolding scalar_fields_def by blast
    from r(2) obtain u where u: "escapeCsvValue (field r ''url'') = Inr u"
      using scalar_escape unfolding scalar_fields_def by blast
    have "csvContent (field r ''data'') = Inr []"
      using empty [OF e] by (simp add: r(3) csvContent_def)
    from toCsv_data_branch [OF ne m this s me u] m s me u
    show ?thesis by simp
  qed
  have ex: "convertArrayOfObjectsToCsv (JArr mixed_rows) = Inr (''a'' @ [LF] @ ''1'')"
    by (simp add: mixed_rows_def csv_eval)
  show ?thesis
    using rows empty fallback ex convertArray_throws [of xs]
    by (simp add: header_set_key_union convertArray_filter)
qed

theorem convertArray_skips_non_objects_witness:
  "(\<exists>h rows. csvRows (header_set mixed_rows) mixed_rows = Inr (h # rows) \<and>
      length rows = 1 \<and> length rows < length mixed_rows) \<and>
   toCsv (ok_result (JArr [JNull, JObj [], JNum ''3''])) =
     Inr (''# status:200|method:GET|url:http://h/x|time:42ms'' @ [LF] @ ''status,method,url''
          @ [LF] @ ''200,GET,http://h/x'')"
proof -
  have c: "header_set mixed_rows \<noteq> []" "cells_printable mixed_rows"
          "length (filter is_object mixed_rows) = 1" "length mixed_rows = 4"
    by (simp_all add: mixed_rows_def header_set_def cells_printable_def escapeCsvValue_def
        show_int_def show_nat.simps)
  have e: "\<forall>x\<in>set [JNull, JObj [], JNum ''3'']. is_object x \<longrightarrow> Object_keys x = []"
    by simp
  have f: "escapeCsvValue (field (ok_result d) ''status'') = Inr ''200''"
          "escapeCsvValue (field (ok_result d) ''method'') = Inr ''GET''"
          "escapeCsvValue (field (ok_result d) ''url'') = Inr ''http://h/x''" for d
    by (simp_all add: ok_result_def ok_response_def formatApiResponse_fields escape_JStr
        escape_JNum show_int_def show_nat.simps)
  from convertArray_skips_non_objects [of mixed_rows] c
  have 1: "\<exists>h rows. csvRows (header_set mixed_rows) mixed_rows = Inr (h # rows) \<and>
      length rows = 1 \<and> length rows < length mixed_rows"
    by auto
  from convertArray_skips_non_objects [of "[JNull, JObj [], JNum ''3'']"] e
  have "\<forall>r. success_shaped r \<longrightarrow> scalar_fields r \<longrightarrow> field r ''data'' = JArr [JNull, JObj [], JNum ''3''] \<longrightarrow>
         (\<exists>m s me u.
            generateMetadataRow r = Inr m \<and>
            escapeCsvValue (field r ''status'') = Inr s \<and>
            escapeCsvValue (field r ''method'') = Inr me \<and>
            escapeCsvValue (field r ''url'') = Inr u \<and>
            toCsv r = Inr (m @ [LF] @ ''status,method,url'' @ [LF] @ s @ '','' @ me @ '','' @ u))"
    by blast
  with ok_result_facts [of "JArr [JNull, JObj [], JNum ''3'']"]
  have 2: "toCsv (ok_result (JArr [JNull, JObj [], JNum ''3''])) =
     Inr (''# status:200|method:GET|url:http://h/x|time:42ms'' @ [LF] @ ''status,method,url''
          @ [LF] @ ''200,GET,http://h/x'')"
    by (auto simp add: ok_result_meta f)
  from 1 2 show ?thesis by blast
qed

text \<open>
  A mixed array with one object element, whose only cell is \<^verbatim>\<open>{"toString":1}\<close>: the header
  has the key \<^verbatim>\<open>a\<close>, but the conversion throws and emits no data row, so the number of
  data rows is not the number of object elements. The claim as stated fails.
\<close>

theorem convertArray_unprintable_cell:
  "header_set unprintable_rows = [''a''] \<and>
   length (filter is_object unprintable_rows) = 1 \<and>
   csvRows (header_set unprintable_rows) unprintable_rows =
     Inl (TypeError ''Cannot convert object to primitive value'') \<and>
   convertArrayOfObjectsToCsv (JArr unprintable_rows) =
     Inl (TypeError ''Cannot convert object to primitive value'')"
  by (simp add: unprintable_rows_def header_set_def csvRows_def csv_header_def csv_row_def
      convertArrayOfObjectsToCsv_def escapeCsvValue_def)

subsection \<open>Exceptions that leave the projector, and the dispatcher\<close>

lemma sequence_Inl:
  "sequence ms = Inl e \<Longrightarrow> Inl e \<in> set ms"
proof (induction ms rule: sequence.induct)
  case 1
  then show ?case by simp
next
  case (2 e' ms)
  then show ?case by simp
next
  case (3 x ms)
  then show ?case by (auto split: sum.splits)
qed

lemma js_String_Inl:
  "js_String v = Inl e \<Longrightarrow> e = TypeError ''Cannot convert object to primitive value''"
proof (induction v rule: js_String.induct)
  case (6 xs)
  from "6.prems" obtain e' where
    "sequence (map (\<lambda>x. if x = JUndefined \<or> x = JNull then Inr [] else js_String x) xs) = Inl e'"
    and e': "e' = e"
    by (cases "sequence (map (\<lambda>x. if x = JUndefined \<or> x = JNull then Inr [] else js_String x) xs)")
       auto
  then have "Inl e \<in> set (map (\<lambda>x. if x = JUndefined \<or> x = JNull then Inr [] else js_String x) xs)"
    using sequence_Inl by blast
  then obtain x where "x \<in> set xs" "\<not> (x = JUndefined \<or> x = JNull)" "js_String x = Inl e"
    by (auto split: if_splits)
  then show ?case
    using "6.IH" by blast
qed (auto split: if_splits)

lemma toCsv_metadata_throws:
  assumes "generateMetadataRow r = Inl e"
  shows "toCsv r = Inl e"
proof -
  have "toCsv_try r = Inl e"
    using assms by (simp add: toCsv_try_def)
  then show ?thesis
    using assms by (simp add: toCsv_def)
qed

lemma metadata_unprintable_url:
  assumes "js_String (js_or (field r ''url'') (JStr ''N/A'')) = Inl e"
  shows "generateMetadataRow r = Inl (TypeError ''Cannot convert object to primitive value'')"
proof -
  have e: "e = TypeError ''Cannot convert object to primitive value''"
    using assms by (rule js_String_Inl)
  show ?thesis
  proof (cases "js_String (js_or (field r ''status'') (JStr ''N/A''))")
    case (Inl a)
    then show ?thesis
      using js_String_Inl [OF Inl] by (simp add: generateMetadataRow_def)
  next
    case s: (Inr a)
    show ?thesis
    proof (cases "js_String (js_or (field r ''method'') (JStr ''N/A''))")
      case (Inl b)
      then show ?thesis
        using js_String_Inl [OF Inl] s by (simp add: generateMetadataRow_def)
    next
      case (Inr b)
      then show ?thesis
        using s assms e by (simp add: generateMetadataRow_def)
    qed
  qed
qed

text \<open>
  Claim C3, at the result of a failed call whose \<open>url\<close> argument was the JSON object
  \<^verbatim>\<open>{"toString":1}\<close> (the handlers pass the arguments on unvalidated): the template
  literal of \<^verbatim>\<open>generateMetadataRow\<close> throws a TypeError, the \<^verbatim>\<open>catch\<close> block of
  \<^verbatim>\<open>toCsv\<close> calls \<^verbatim>\<open>generateMetadataRow\<close> again, and the TypeError leaves \<^verbatim>\<open>toCsv\<close>.
\<close>

theorem toCsv_throws_on_unprintable_url:
  "toCsv (formatErrorResponse (Exn ''Cannot convert object to primitive value'' JUndefined None)
            (JStr ''GET'') (JObj [(''toString'', JNum ''1'')]) JNull) =
     Inl (TypeError ''Cannot convert object to primitive value'')"
  by (rule toCsv_metadata_throws, rule metadata_unprintable_url)
     (simp add: formatErrorResponse_fields js_or_def)

text \<open>
  With scalar metadata fields the claim holds: \<^verbatim>\<open>toCsv\<close> returns the result of the
  \<^verbatim>\<open>try\<close> block, or the comment line and the conversion-error table with the message of
  the exception.
\<close>

lemma toCsv_total:
  assumes "scalar_fields r"
  shows "\<exists>m. generateMetadataRow r = Inr m \<and>
    (case toCsv_try r of
       Inr t \<Rightarrow> toCsv r = Inr t
     | Inl e \<Rightarrow> \<exists>c. escapeCsvValue (JStr (message e)) = Inr c \<and>
         toCsv r = Inr (m @ [LF] @ ''error,code,message'' @ [LF] @
                        ''CSV Conversion Error,CONVERSION_ERROR,'' @ c))"
proof -
  from assms obtain m where m: "generateMetadataRow r = Inr m"
    using metadata_total by blast
  show ?thesis
  proof (cases "toCsv_try r")
    case (Inl e)
    obtain c where "escapeCsvValue (JStr (message e)) = Inr c"
      by (simp add: escape_JStr)
    with Inl m show ?thesis
      by (simp add: toCsv_def)
  next
    case (Inr t)
    with m show ?thesis
      by (simp add: toCsv_def)
  qed
qed

lemma attempt_requests: "fst (snd (attempt client t1 cfg m u rd fmt)) = [cfg]"
  by (simp add: attempt_def split: sum.splits prod.splits)

lemma handler_requests:
  "requests (handler client t0 t1 name args) = fst (snd (tool_case client t0 t1 name args))"
  by (simp add: handler_def split: sum.splits prod.splits)

text \<open>
  Claim C5, at the call of \<^verbatim>\<open>api_get\<close> with the empty argument object: \<^verbatim>\<open>validateArgs\<close>
  accepts it, the client is called with an undefined URL whatever the client is, and with a
  client that reaches no server the reply is the formatted failure, not flagged as an error,
  and the failure is logged as an API error.
\<close>

theorem handler_missing_url_calls_client:
  "requests (handler client t0 t1 ''api_get'' (JObj [])) =
     [\<lparr>req_method = ''get'', req_url = JUndefined, req_data = JUndefined,
       req_headers = JUndefined, req_params = JUndefined,
       req_metadata = \<lparr>startTime = Some t0, endTime = None\<rparr>\<rparr>] \<and>
   reply (handler no_network t0 t1 ''api_get'' (JObj [])) =
     \<lparr>content = JsonText [(''success'', JBool False), (''method'', JStr ''GET''),
                           (''url'', JUndefined), (''error'', JStr ''Network Error''),
                           (''code'', JStr ''ERR_NETWORK'')],
      isError = False\<rparr> \<and>
   logged (handler no_network t0 t1 ''api_get'' (JObj [])) =
     [ApiErrorLog [(''success'', JBool False), (''method'', JStr ''GET''),
                   (''url'', JUndefined), (''error'', JStr ''Network Error''),
                   (''code'', JStr ''ERR_NETWORK'')]]"
proof -
  have v: "validateArgs (JObj []) = Inr (JObj [])"
    by (simp add: validateArgs_def js_or_def)
  have 1: "requests (handler client t0 t1 ''api_get'' (JObj [])) =
     [\<lparr>req_method = ''get'', req_url = JUndefined, req_data = JUndefined,
       req_headers = JUndefined, req_params = JUndefined,
       req_metadata = \<lparr>startTime = Some t0, endTime = None\<rparr>\<rparr>]"
    by (simp add: handler_requests tool_case_def v attempt_requests Let_def not_inherited)
  have 2: "handler no_network t0 t1 ''api_get'' (JObj []) =
     \<lparr>reply = \<lparr>content = JsonText [(''success'', JBool False), (''method'', JStr ''GET''),
                           (''url'', JUndefined), (''error'', JStr ''Network Error''),
                           (''code'', JStr ''ERR_NETWORK'')],
      isError = False\<rparr>,
      requests = [\<lparr>req_method = ''get'', req_url = JUndefined, req_data = JUndefined,
       req_headers = JUndefined, req_params = JUndefined,
       req_metadata = \<lparr>startTime = Some t0, endTime = None\<rparr>\<rparr>],
      logged = [ApiErrorLog [(''success'', JBool False), (''method'', JStr ''GET''),
                   (''url'', JUndefined), (''error'', JStr ''Network Error''),
                   (''code'', JStr ''ERR_NETWORK'')]]\<rparr>"
    by (simp add: handler_def tool_case_def v attempt_def Let_def js_or_def no_network_def
        handleErrorWithLogging_def buildContent_def formatErrorResponse_def not_inherited)
  from 1 2 show ?thesis by simp
qed

text \<open>
  Without \<open>method\<close>, \<^verbatim>\<open>api_request\<close> makes no request: \<^verbatim>\<open>method.toLowerCase()\<close> throws
  while the request is built.
\<close>

lemma handler_missing_method:
  "handler client t0 t1 ''api_request'' (JObj [(''url'', JStr ''http://h/x'')]) =
     \<lparr>reply = \<lparr>content = JsonText [(''success'', JBool False),
          (''error'', JStr ''Cannot read properties of undefined (reading 'toLowerCase')''),
          (''tool'', JStr ''api_request'')], isError = True\<rparr>,
      requests = [],
      logged = [HandlerErrorLog ''api_request''
                  ''Cannot read properties of undefined (reading 'toLowerCase')'']\<rparr>"
  by (simp add: handler_def tool_case_def validateArgs_def js_or_def Let_def toLowerCase_def
      TypeError_def Object_prototype_def)

text \<open>
  Two more behaviours of the table of an array, outside the theorem above. A header key
  that names an inherited property is read through the prototype chain for an element that
  lacks it; and a cell without a string form makes the \<^verbatim>\<open>try\<close> block throw, which the
  \<^verbatim>\<open>catch\<close> block turns into the conversion-error table.
\<close>

lemma inherited_key_cell:
  "convertArrayOfObjectsToCsv (JArr [JObj [(''constructor'', JNum ''1'')], JObj [(''y'', JNum ''2'')]]) =
     Inr (''constructor,y'' @ [LF] @ ''1,'' @ [LF] @ ''function Object() { [native code] },2'')"
  by (simp add: csv_eval)

lemma toCsv_conversion_error_example:
  "toCsv (ok_result (JArr [JObj [(''a'', JObj [(''toString'', JNum ''1'')])]])) =
     Inr (''# status:200|method:GET|url:http://h/x|time:42ms'' @ [LF] @ ''error,code,message''
          @ [LF] @
          ''CSV Conversion Error,CONVERSION_ERROR,Cannot convert object to primitive value'')"
  by (simp add: ok_result_def ok_response_def csv_eval TypeError_def)

text \<open>
  The call \<^verbatim>\<open>api_get\<close> with the URL \<^verbatim>\<open>{"toString":1}\<close> and the format \<^verbatim>\<open>csv\<close>:
  whatever the client does, the exception leaves \<^verbatim>\<open>toCsv\<close> and the handler answers
  with the reply of its outer \<^verbatim>\<open>catch\<close>.
\<close>

lemma buildContent_unprintable_url:
  assumes "field r ''url'' = JObj [(''toString'', JNum ''1'')]"
  shows "buildContent r (JStr ''csv'') =
           Inl (TypeError ''Cannot convert object to primitive value'')"
proof -
  have "js_String (js_or (field r ''url'') (JStr ''N/A'')) =
          Inl (TypeError ''Cannot convert object to primitive value'')"
    by (simp add: assms js_or_def)
  then have "toCsv r = Inl (TypeError ''Cannot convert object to primitive value'')"
    by (intro toCsv_metadata_throws metadata_unprintable_url)
  then show ?thesis
    by (simp add: buildContent_def)
qed

lemma attempt_unprintable_url:
  "fst (attempt client t1 cfg (JStr ''GET'') (JObj [(''toString'', JNum ''1'')]) JNull (JStr ''csv'')) =
     Inl (TypeError ''Cannot convert object to primitive value'')"
proof -
  have 1: "buildContent (formatApiResponse resp (JStr ''GET'') (JObj [(''toString'', JNum ''1'')]) JNull)
             (JStr ''csv'') = Inl (TypeError ''Cannot convert object to primitive value'')" for resp
    by (rule buildContent_unprintable_url) (simp add: formatApiResponse_fields)
  have 2: "buildContent (formatErrorResponse e (JStr ''GET'') (JObj [(''toString'', JNum ''1'')]) JNull)
             (JStr ''csv'') = Inl (TypeError ''Cannot convert object to primitive value'')" for e
    by (rule buildContent_unprintable_url) (simp add: formatErrorResponse_fields)
  show ?thesis
    by (simp add: attempt_def 1 2 handleErrorWithLogging_def bind_def split: sum.splits)
qed

lemma handler_unprintable_url:
  "reply (handler client t0 t1 ''api_get''
            (JObj [(''url'', JObj [(''toString'', JNum ''1'')]), (''format'', JStr ''csv'')])) =
     \<lparr>content = JsonText [(''success'', JBool False),
                           (''error'', JStr ''Cannot convert object to primitive value''),
                           (''tool'', JStr ''api_get'')],
      isError = True\<rparr>"
proof -
  have v: "validateArgs (JObj [(''url'', JObj [(''toString'', JNum ''1'')]), (''format'', JStr ''csv'')]) =
             Inr (JObj [(''url'', JObj [(''toString'', JNum ''1'')]), (''format'', JStr ''csv'')])"
    by (simp add: validateArgs_def js_or_def)
  obtain x reqs l where a: "attempt client t1
        \<lparr>req_method = ''get'', req_url = JObj [(''toString'', JNum ''1'')], req_data = JUndefined,
         req_headers = JUndefined, req_params = JUndefined,
         req_metadata = \<lparr>startTime = Some t0, endTime = None\<rparr>\<rparr>
        (JStr ''GET'') (JObj [(''toString'', JNum ''1'')]) JNull (JStr ''csv'') = (x, reqs, l)"
    by (metis prod_cases3)
  with attempt_unprintable_url [of client t1 _ ] have x: "x = Inl (TypeError ''Cannot convert object to primitive value'')"
    by (metis fst_conv)
  show ?thesis
    by (simp add: handler_def tool_case_def v Let_def js_or_def not_inherited a x TypeError_def)
qed

end
